theory Spec2Isabelle
  imports Complex_Main "HOL-Library.Log_Nat"
begin

section \<open>Strings\<close>

text \<open>
  JavaScript strings are modelled as \<^typ>\<open>string\<close>. The two regular expressions of
  \<^verbatim>\<open>humanize\<close> and the one of \<^verbatim>\<open>withExtension\<close> only look at ASCII characters
  (\<^verbatim>\<open>\w\<close> without the unicode flag is \<^verbatim>\<open>[A-Za-z0-9_]\<close>), so every other
  character is passed through unchanged.
\<close>

definition is_sep :: "char \<Rightarrow> bool" where
  "is_sep c = (c = CHR ''-'' \<or> c = CHR ''_'')"

definition is_word :: "char \<Rightarrow> bool" where
  "is_word c = (c \<in> set ''abcdefghijklmnopqrstuvwxyzABCDEFGHIJKLMNOPQRSTUVWXYZ0123456789_'')"

text \<open>\<^verbatim>\<open>toUpperCase\<close> on one character: only ASCII letters are ever passed to it.\<close>

definition toUpperCase :: "char \<Rightarrow> char" where
  "toUpperCase c =
     (case map_of (zip ''abcdefghijklmnopqrstuvwxyz'' ''ABCDEFGHIJKLMNOPQRSTUVWXYZ'') c of
        Some u \<Rightarrow> u
      | None \<Rightarrow> c)"

text \<open>\<^verbatim>\<open>.replace(/[-_]+/g, ' ')\<close>: every maximal run of hyphens and underscores becomes one space.\<close>

function collapse :: "string \<Rightarrow> string" where
  "collapse [] = []"
| "collapse (c # cs) =
     (if is_sep c then CHR '' '' # collapse (dropWhile is_sep cs) else c # collapse cs)"
  by pat_completeness auto
termination
  by (relation "measure length") (auto simp: length_dropWhile_le less_Suc_eq_le)

text \<open>
  \<^verbatim>\<open>.replace(/\b\w/g, (m) => m.toUpperCase())\<close>: a word character is upper-cased when it
  stands at a word boundary, that is when it is the first character or follows a character
  that is not a word character. The flag says whether the previous character was a word
  character.
\<close>

fun capitalize :: "bool \<Rightarrow> string \<Rightarrow> string" where
  "capitalize prev [] = []"
| "capitalize prev (c # cs) =
     (if is_word c \<and> \<not> prev then toUpperCase c else c) # capitalize (is_word c) cs"

definition humanize :: "string \<Rightarrow> string" where
  "humanize n = capitalize False (collapse n)"

text \<open>
  \<^verbatim>\<open>src.replace(/\.[^.]+$/, ext)\<close>: the last dot and everything after it is replaced,
  provided at least one character follows that dot; otherwise the string is unchanged.
\<close>

definition withExtension :: "string \<Rightarrow> string \<Rightarrow> string" where
  "withExtension src ext =
     (let r = rev src;
          suffix = takeWhile (\<lambda>c. c \<noteq> CHR ''.'') r;
          rest = dropWhile (\<lambda>c. c \<noteq> CHR ''.'') r
      in if rest = [] \<or> suffix = [] then src else rev (tl rest) @ ext)"

section \<open>The manifest\<close>

text \<open>
  The manifest is the JSON document \<^verbatim>\<open>{ basePath, categories: [{ name, title?, images }] }\<close>.
  The code guards against a missing \<^verbatim>\<open>categories\<close>, \<^verbatim>\<open>title\<close> and \<^verbatim>\<open>images\<close>
  (\<^verbatim>\<open>manifest.categories || []\<close>, \<^verbatim>\<open>cat.title || ...\<close>, \<^verbatim>\<open>cat.images || []\<close>), so these
  three are optional here; a field that is present has the type the data model gives it.
\<close>

record category =
  name :: string
  title :: "string option"
  images :: "string list option"

record manifest =
  basePath :: string
  categories :: "category list option"

text \<open>The two programs of the source file: the one with the masonry layout, responsive
  picture elements and the category priority list, and the plain one.\<close>

datatype variant = Masonry | Plain

definition MASONRY_ROW_HEIGHT :: rat where
  "MASONRY_ROW_HEIGHT = 8"

definition CATEGORY_ORDER :: "string list" where
  "CATEGORY_ORDER = [''portraits'', ''photo-tours'', ''landscapes'', ''brand-creative'', ''food'']"

definition CATEGORY_TITLES :: "(string \<times> string) list" where
  "CATEGORY_TITLES =
     [(''portraits'', ''Portraits''),
      (''photo-tours'', ''Photo Tours''),
      (''landscapes'', ''Landscape''),
      (''brand-creative'', ''Brand & Creative''),
      (''food'', ''Food'')]"

text \<open>
  \<^verbatim>\<open>CATEGORY_TITLES[cat.name]\<close> is a property read on an object literal: it yields the own
  entry when there is one, and otherwise whatever the object inherits under that name from
  \<^verbatim>\<open>Object.prototype\<close> (for a name such as \<^verbatim>\<open>constructor\<close>). The inherited members are
  the browser's; they are the parameter \<open>proto\<close>, each member given by the text it
  converts to. Every value the read can yield is truthy: the five own titles are not
  empty, and an inherited member is a function or an object.
\<close>

definition lookupTitle :: "(string \<times> string) list \<Rightarrow> string \<Rightarrow> string option" where
  "lookupTitle proto k =
     (case map_of CATEGORY_TITLES k of Some t \<Rightarrow> Some t | None \<Rightarrow> map_of proto k)"

text \<open>\<^verbatim>\<open>cat.title || humanize(cat.name)\<close>: an absent or empty title is falsy.\<close>

definition titleOrHumanized :: "category \<Rightarrow> string" where
  "titleOrHumanized cat =
     (case title cat of
        Some t \<Rightarrow> if t \<noteq> [] then t else humanize (name cat)
      | None \<Rightarrow> humanize (name cat))"

text \<open>\<^verbatim>\<open>CATEGORY_TITLES[cat.name] || cat.title || humanize(cat.name)\<close>\<close>

definition resolveTitle :: "(string \<times> string) list \<Rightarrow> category \<Rightarrow> string" where
  "resolveTitle proto cat =
     (case lookupTitle proto (name cat) of
        Some t \<Rightarrow> t
      | None \<Rightarrow> titleOrHumanized cat)"

text \<open>\<^verbatim>\<open>{ ...cat, title: ... }\<close>\<close>

definition withTitle :: "(string \<times> string) list \<Rightarrow> category \<Rightarrow> category" where
  "withTitle proto cat = cat\<lparr>title := Some (resolveTitle proto cat)\<rparr>"

text \<open>\<^verbatim>\<open>cat.images && cat.images.length\<close>\<close>

definition hasImages :: "category \<Rightarrow> bool" where
  "hasImages cat = (case images cat of None \<Rightarrow> False | Some fs \<Rightarrow> fs \<noteq> [])"

text \<open>\<^verbatim>\<open>(allCategories || []).filter(...)\<close>\<close>

definition nonEmptyCategories :: "category list option \<Rightarrow> category list" where
  "nonEmptyCategories allCategories =
     filter hasImages (case allCategories of None \<Rightarrow> [] | Some cs \<Rightarrow> cs)"

text \<open>\<^verbatim>\<open>byName.get(name)\<close> on \<^verbatim>\<open>new Map(valid.map((cat) => [cat.name, cat]))\<close>: of two
  entries with one key the later one stays.\<close>

definition byName :: "category list \<Rightarrow> string \<Rightarrow> category option" where
  "byName valid k = find (\<lambda>cat. name cat = k) (rev valid)"

definition prioritizeCategories ::
    "(string \<times> string) list \<Rightarrow> category list option \<Rightarrow> category list" where
  "prioritizeCategories proto allCategories =
     (let valid = nonEmptyCategories allCategories;
          prioritized = map (withTitle proto) (List.map_filter (byName valid) CATEGORY_ORDER)
      in if prioritized \<noteq> [] then prioritized else map (withTitle proto) valid)"

text \<open>The category list \<^verbatim>\<open>renderPortfolio\<close> works with.\<close>

definition resolveCategories ::
    "variant \<Rightarrow> (string \<times> string) list \<Rightarrow> manifest \<Rightarrow> category list" where
  "resolveCategories v proto m =
     (case v of
        Masonry \<Rightarrow> prioritizeCategories proto (categories m)
      | Plain \<Rightarrow> nonEmptyCategories (categories m))"

section \<open>Elements\<close>

text \<open>
  An element carries what the script reads or writes: its tag, \<^verbatim>\<open>className\<close>, the
  attributes set with \<^verbatim>\<open>setAttribute\<close> in the order they were first set, the properties
  \<^verbatim>\<open>tabIndex\<close> (\<open>None\<close> while the script has not assigned it) and \<^verbatim>\<open>hidden\<close>, and its
  children.
\<close>

datatype node =
    TextNode string
  | Element string string "(string \<times> string) list" "int option" bool "node list"

definition createElement :: "string \<Rightarrow> node" where
  "createElement tag = Element tag [] [] None False []"

fun update_attr :: "string \<Rightarrow> string \<Rightarrow> (string \<times> string) list \<Rightarrow> (string \<times> string) list" where
  "update_attr k v [] = [(k, v)]"
| "update_attr k v ((k', v') # kvs) =
     (if k' = k then (k, v) # kvs else (k', v') # update_attr k v kvs)"

fun setAttribute :: "string \<Rightarrow> string \<Rightarrow> node \<Rightarrow> node" where
  "setAttribute k v (Element tag cls attrs ti hid kids) =
     Element tag cls (update_attr k v attrs) ti hid kids"
| "setAttribute k v (TextNode s) = TextNode s"

fun getAttribute :: "string \<Rightarrow> node \<Rightarrow> string option" where
  "getAttribute k (Element tag cls attrs ti hid kids) = map_of attrs k"
| "getAttribute k (TextNode s) = None"

fun set_className :: "string \<Rightarrow> node \<Rightarrow> node" where
  "set_className v (Element tag cls attrs ti hid kids) = Element tag v attrs ti hid kids"
| "set_className v (TextNode s) = TextNode s"

fun className :: "node \<Rightarrow> string" where
  "className (Element tag cls attrs ti hid kids) = cls"
| "className (TextNode s) = []"

text \<open>Assigning \<^verbatim>\<open>textContent\<close> replaces the children by one text node, or by none for the
  empty string.\<close>

fun set_textContent :: "string \<Rightarrow> node \<Rightarrow> node" where
  "set_textContent v (Element tag cls attrs ti hid kids) =
     Element tag cls attrs ti hid (if v = [] then [] else [TextNode v])"
| "set_textContent v (TextNode s) = TextNode v"

fun set_tabIndex :: "int \<Rightarrow> node \<Rightarrow> node" where
  "set_tabIndex i (Element tag cls attrs ti hid kids) = Element tag cls attrs (Some i) hid kids"
| "set_tabIndex i (TextNode s) = TextNode s"

fun tabIndex :: "node \<Rightarrow> int option" where
  "tabIndex (Element tag cls attrs ti hid kids) = ti"
| "tabIndex (TextNode s) = None"

fun set_hidden :: "bool \<Rightarrow> node \<Rightarrow> node" where
  "set_hidden b (Element tag cls attrs ti hid kids) = Element tag cls attrs ti b kids"
| "set_hidden b (TextNode s) = TextNode s"

fun hidden :: "node \<Rightarrow> bool" where
  "hidden (Element tag cls attrs ti hid kids) = hid"
| "hidden (TextNode s) = False"

fun childNodes :: "node \<Rightarrow> node list" where
  "childNodes (Element tag cls attrs ti hid kids) = kids"
| "childNodes (TextNode s) = []"

fun set_childNodes :: "node list \<Rightarrow> node \<Rightarrow> node" where
  "set_childNodes ks (Element tag cls attrs ti hid kids) = Element tag cls attrs ti hid ks"
| "set_childNodes ks (TextNode s) = TextNode s"

fun tagName :: "node \<Rightarrow> string" where
  "tagName (Element tag cls attrs ti hid kids) = tag"
| "tagName (TextNode s) = []"

definition appendChild :: "node \<Rightarrow> node \<Rightarrow> node" where
  "appendChild parent c = set_childNodes (childNodes parent @ [c]) parent"

text \<open>\<^verbatim>\<open>el(tag, attrs, children)\<close>; the attributes are taken in the order the object literal
  lists them.\<close>

definition el :: "string \<Rightarrow> (string \<times> string) list \<Rightarrow> node list \<Rightarrow> node" where
  "el tag attrs children =
     fold (\<lambda>c nd. appendChild nd c) children
       (fold (\<lambda>(k, v) nd.
            if k = ''class'' then set_className v nd
            else if k = ''text'' then set_textContent v nd
            else setAttribute k v nd)
          attrs (createElement tag))"

text \<open>\<^verbatim>\<open>figureFor(src, alt)\<close>, in each of the two programs.\<close>

definition figureFor :: "variant \<Rightarrow> string \<Rightarrow> string \<Rightarrow> node" where
  "figureFor v src alt =
     (case v of
        Masonry \<Rightarrow>
          el ''figure'' [(''class'', ''gallery-item'')]
            [el ''picture'' []
               [el ''source'' [(''type'', ''image/avif''), (''srcset'', withExtension src ''.avif'')] [],
                el ''source'' [(''type'', ''image/webp''), (''srcset'', withExtension src ''.webp'')] [],
                el ''img'' [(''src'', src), (''alt'', alt), (''loading'', ''lazy''),
                            (''decoding'', ''async'')] []]]
      | Plain \<Rightarrow>
          el ''figure'' [(''class'', ''gallery-item'')]
            [el ''img'' [(''src'', src), (''alt'', alt), (''loading'', ''lazy'')] []])"

text \<open>The template literals \<^verbatim>\<open>${manifest.basePath}/${cat.name}/${file}\<close> and
  \<^verbatim>\<open>${cat.title || humanize(cat.name)} (em dash) Elle Phoenix\<close>; the dash is the three bytes
  of its UTF-8 form.\<close>

definition imageSrc :: "manifest \<Rightarrow> category \<Rightarrow> string \<Rightarrow> string" where
  "imageSrc m cat file = basePath m @ ''/'' @ name cat @ ''/'' @ file"

definition imageAlt :: "category \<Rightarrow> string" where
  "imageAlt cat =
     titleOrHumanized cat @ '' '' @ [CHR 0xE2, CHR 0x80, CHR 0x94] @ '' Elle Phoenix''"

section \<open>The page\<close>

text \<open>
  What the script reads from and writes to the browser. \<open>elements\<close> gives, for each id
  that \<^verbatim>\<open>document.getElementById\<close> finds, the children of that element; \<open>server\<close> is the
  answer a request for the manifest gets; \<open>replaceStateThrows\<close> says whether
  \<^verbatim>\<open>history.replaceState\<close> throws on this page; \<open>objectProto\<close> are the members of
  \<^verbatim>\<open>Object.prototype\<close>. The remaining fields record effects: the number of requests sent,
  the URLs given to \<^verbatim>\<open>history.replaceState\<close>, the values assigned to \<^verbatim>\<open>location.hash\<close>,
  the id of the element that has the focus, and the number of layout passes asked for
  with \<^verbatim>\<open>requestAnimationFrame\<close> and of \<^verbatim>\<open>resize\<close> listeners added.
\<close>

datatype error = LocalFileProtocol | FailedToLoad | FetchRejected | InvalidJSON | TypeError

datatype fetch_outcome = Rejected | Response bool "manifest option"

record page =
  protocol :: string
  hash :: string
  server :: fetch_outcome
  replaceStateThrows :: bool
  objectProto :: "(string \<times> string) list"
  elements :: "string \<rightharpoonup> node list"
  fetches :: nat
  replaced :: "string list"
  assigned :: "string list"
  activeElement :: "string option"
  frames :: nat
  resizeListeners :: nat

text \<open>\<^verbatim>\<open>loadManifest()\<close>: the thrown errors and the rejected promises are the \<open>Inl\<close> results.
  \<open>Response ok body\<close> is a response with \<^verbatim>\<open>res.ok\<close> and the manifest its body parses to,
  \<open>None\<close> when the body is not JSON.\<close>

definition loadManifest :: "page \<Rightarrow> (error + manifest) \<times> page" where
  "loadManifest p =
     (if protocol p = ''file:'' then (Inl LocalFileProtocol, p)
      else
        let p' = p\<lparr>fetches := Suc (fetches p)\<rparr> in
        case server p of
          Rejected \<Rightarrow> (Inl FetchRejected, p')
        | Response ok body \<Rightarrow>
            if \<not> ok then (Inl FailedToLoad, p')
            else (case body of None \<Rightarrow> (Inl InvalidJSON, p') | Some m \<Rightarrow> (Inr m, p')))"

text \<open>\<^verbatim>\<open>root.appendChild(node)\<close> for the element with the given id.\<close>

definition appendTo :: "string \<Rightarrow> node \<Rightarrow> page \<Rightarrow> page" where
  "appendTo rootId nd p =
     (case elements p rootId of
        None \<Rightarrow> p
      | Some kids \<Rightarrow> p\<lparr>elements := (elements p)(rootId \<mapsto> kids @ [nd])\<rparr>)"

definition statusMessage :: "string \<Rightarrow> node" where
  "statusMessage msg = el ''p'' [(''class'', ''muted''), (''text'', msg)] []"

section \<open>Selectors and class lists\<close>

definition is_space :: "char \<Rightarrow> bool" where
  "is_space c = (c \<in> set [CHR '' '', CHR 0x09, CHR 0x0A, CHR 0x0C, CHR 0x0D])"

text \<open>The tokens of a class attribute: \<open>cur\<close> is the token being read.\<close>

fun tokens :: "string \<Rightarrow> string \<Rightarrow> string list" where
  "tokens cur [] = (if cur = [] then [] else [cur])"
| "tokens cur (c # cs) =
     (if is_space c then (if cur = [] then tokens [] cs else cur # tokens [] cs)
      else tokens (cur @ [c]) cs)"

definition hasClass :: "string \<Rightarrow> node \<Rightarrow> bool" where
  "hasClass c nd = (c \<in> set (tokens [] (className nd)))"

text \<open>\<^verbatim>\<open>classList.add(c)\<close>\<close>

definition addClass :: "string \<Rightarrow> node \<Rightarrow> node" where
  "addClass c nd =
     (if hasClass c nd then nd
      else set_className (if className nd = [] then c else className nd @ '' '' @ c) nd)"

text \<open>\<^verbatim>\<open>querySelector\<close> over the children of an element: the first element in document
  order that satisfies the selector. \<open>replaceFirst\<close> puts a changed copy in the place of
  that element, as a mutation through the reference \<^verbatim>\<open>querySelector\<close> returned does.\<close>

fun querySelector :: "(node \<Rightarrow> bool) \<Rightarrow> node list \<Rightarrow> node option" where
  "querySelector P [] = None"
| "querySelector P (TextNode s # ns) = querySelector P ns"
| "querySelector P (Element tag cls attrs ti hid kids # ns) =
     (if P (Element tag cls attrs ti hid kids) then Some (Element tag cls attrs ti hid kids)
      else (case querySelector P kids of
              Some found \<Rightarrow> Some found
            | None \<Rightarrow> querySelector P ns))"

fun replaceFirst :: "(node \<Rightarrow> bool) \<Rightarrow> node \<Rightarrow> node list \<Rightarrow> node list" where
  "replaceFirst P new [] = []"
| "replaceFirst P new (TextNode s # ns) = TextNode s # replaceFirst P new ns"
| "replaceFirst P new (Element tag cls attrs ti hid kids # ns) =
     (if P (Element tag cls attrs ti hid kids) then new # ns
      else (case querySelector P kids of
              Some found \<Rightarrow> Element tag cls attrs ti hid (replaceFirst P new kids) # ns
            | None \<Rightarrow> Element tag cls attrs ti hid kids # replaceFirst P new ns))"

section \<open>Masonry\<close>

text \<open>
  \<^verbatim>\<open>enableMasonry(gallery)\<close> as far as it acts at once: the guard on
  \<^verbatim>\<open>gallery.dataset.masonry\<close>, the data attribute, the class, the \<^verbatim>\<open>resize\<close> listener
  and the first \<^verbatim>\<open>schedule()\<close>, which asks for one animation frame. The \<^verbatim>\<open>load\<close> and
  \<^verbatim>\<open>error\<close> listeners of the images and the frame's callback run later and are not part
  of this step.
\<close>

definition enableMasonry :: "node \<Rightarrow> page \<Rightarrow> node \<times> page" where
  "enableMasonry gallery p =
     (if getAttribute ''data-masonry'' gallery = Some ''on'' then (gallery, p)
      else (addClass ''gallery-masonry'' (setAttribute ''data-masonry'' ''on'' gallery),
            p\<lparr>frames := Suc (frames p), resizeListeners := Suc (resizeListeners p)\<rparr>))"

subsection \<open>Numbers\<close>

text \<open>
  The numbers of \<^verbatim>\<open>layoutMasonry\<close> are IEEE 754 double-precision numbers. A finite one is
  given by its value, a rational; the sign of a zero is not kept (see \<open>js_div\<close>).
\<close>

datatype js_number = Num rat | PosInfinity | NegInfinity | NaN

definition pow2 :: "int \<Rightarrow> rat" where
  "pow2 e = (if 0 \<le> e then 2 ^ nat e else 1 / 2 ^ nat (- e))"

text \<open>The exponent of a positive rational: the integer \<open>d\<close> with \<open>2^d \<le> x < 2^(d+1)\<close>, found
  from the bit lengths of the numerator and the denominator.\<close>

definition ilog2 :: "rat \<Rightarrow> int" where
  "ilog2 x =
     (let d = bitlen (fst (quotient_of x)) - bitlen (snd (quotient_of x))
      in if pow2 d \<le> x then d else d - 1)"

text \<open>Rounding to the nearest integer, a tie going to the even one.\<close>

definition roundEven :: "rat \<Rightarrow> int" where
  "roundEven m =
     (let f = \<lfloor>m\<rfloor>; r = m - of_int f
      in if r < 1 / 2 then f else if 1 / 2 < r then f + 1 else if even f then f else f + 1)"

text \<open>
  The double nearest to a rational, as every arithmetic operation rounds its exact
  result: 53 significant bits, so the unit in the last place is \<open>2^(exponent - 52)\<close>, and
  never less than \<open>2^-1074\<close> (the subnormal numbers); a tie goes to the even significand; a
  result that needs an exponent above 1023 is an infinity.
\<close>

definition toDouble :: "rat \<Rightarrow> js_number" where
  "toDouble x =
     (if x = 0 then Num 0
      else
        let e = max (ilog2 \<bar>x\<bar> - 52) (- 1074);
            n = roundEven (x / pow2 e)
        in if 1024 < e + bitlen \<bar>n\<bar> then (if 0 < x then PosInfinity else NegInfinity)
           else Num (of_int n * pow2 e))"

text \<open>\<^verbatim>\<open>a + b\<close>\<close>

fun js_add :: "js_number \<Rightarrow> js_number \<Rightarrow> js_number" where
  "js_add (Num a) (Num b) = toDouble (a + b)"
| "js_add NaN y = NaN"
| "js_add x NaN = NaN"
| "js_add PosInfinity NegInfinity = NaN"
| "js_add NegInfinity PosInfinity = NaN"
| "js_add PosInfinity y = PosInfinity"
| "js_add x PosInfinity = PosInfinity"
| "js_add NegInfinity y = NegInfinity"
| "js_add x NegInfinity = NegInfinity"

text \<open>
  \<^verbatim>\<open>a / b\<close>. A zero divisor is taken as \<^verbatim>\<open>+0\<close>: the one division of the script divides by
  the sum \<^verbatim>\<open>MASONRY_ROW_HEIGHT + gap\<close>, and a sum of two numbers that is zero is \<^verbatim>\<open>+0\<close>
  unless both are \<^verbatim>\<open>-0\<close>. The sign of a zero quotient does not show in
  \<^verbatim>\<open>Math.max(1, Math.ceil(...))\<close>.
\<close>

fun js_div :: "js_number \<Rightarrow> js_number \<Rightarrow> js_number" where
  "js_div NaN y = NaN"
| "js_div x NaN = NaN"
| "js_div (Num a) (Num b) =
     (if b = 0 then (if a = 0 then NaN else if 0 < a then PosInfinity else NegInfinity)
      else toDouble (a / b))"
| "js_div (Num a) y = Num 0"
| "js_div PosInfinity (Num b) = (if 0 \<le> b then PosInfinity else NegInfinity)"
| "js_div NegInfinity (Num b) = (if 0 \<le> b then NegInfinity else PosInfinity)"
| "js_div x y = NaN"

text \<open>\<^verbatim>\<open>Math.ceil(x)\<close>: the ceiling of a double is a double.\<close>

fun js_ceil :: "js_number \<Rightarrow> js_number" where
  "js_ceil (Num a) = Num (of_int \<lceil>a\<rceil>)"
| "js_ceil x = x"

text \<open>\<^verbatim>\<open>Math.max(1, x)\<close>\<close>

fun js_max1 :: "js_number \<Rightarrow> js_number" where
  "js_max1 (Num a) = Num (max 1 a)"
| "js_max1 NegInfinity = Num 1"
| "js_max1 x = x"

subsection \<open>The layout\<close>

text \<open>
  \<^verbatim>\<open>layoutMasonry(gallery)\<close> works on what the browser has laid out. A gallery is given
  by \<^verbatim>\<open>isConnected\<close>, the number of boxes \<^verbatim>\<open>getClientRects()\<close> returns, the number
  \<^verbatim>\<open>parseFloat(styles.rowGap || styles.gap)\<close> yields (\<open>None\<close> for \<^verbatim>\<open>NaN\<close>), its class list and
  its children; a child by its class list (\<open>None\<close> when \<^verbatim>\<open>n.classList\<close> is undefined), the
  height of its bounding box and its \<^verbatim>\<open>style.gridRowEnd\<close>. The heights and the gap are
  finite doubles, given by their values. \<open>Span x\<close> is the string \<^verbatim>\<open>span ${x}\<close>.
\<close>

datatype row_end = Unset | Span js_number

record item =
  classList :: "string list option"
  height :: rat
  gridRowEnd :: row_end

record gallery =
  isConnected :: bool
  clientRects :: nat
  parsedGap :: "rat option"
  galleryClasses :: "string list"
  children :: "item list"

text \<open>\<^verbatim>\<open>parseFloat(...) || 0\<close>: \<^verbatim>\<open>NaN\<close> and zero are falsy.\<close>

definition gapOf :: "gallery \<Rightarrow> rat" where
  "gapOf g = (case parsedGap g of None \<Rightarrow> 0 | Some x \<Rightarrow> x)"

text \<open>\<^verbatim>\<open>span ${Math.max(1, Math.ceil((height + gap) / (MASONRY_ROW_HEIGHT + gap)))}\<close>\<close>

definition spanFor :: "rat \<Rightarrow> rat \<Rightarrow> row_end" where
  "spanFor h gap =
     Span (js_max1 (js_ceil (js_div (js_add (Num h) (Num gap))
                                    (js_add (Num MASONRY_ROW_HEIGHT) (Num gap)))))"

definition isGalleryItem :: "item \<Rightarrow> bool" where
  "isGalleryItem n = (case classList n of None \<Rightarrow> False | Some cs \<Rightarrow> ''gallery-item'' \<in> set cs)"

definition layoutMasonry :: "gallery option \<Rightarrow> gallery option" where
  "layoutMasonry gal =
     (case gal of
        None \<Rightarrow> None
      | Some g \<Rightarrow>
          if \<not> isConnected g then Some g
          else if clientRects g = 0 then Some g
          else
            let gap = gapOf g in
            Some (g\<lparr>children :=
                       map (\<lambda>n. if isGalleryItem n then n\<lparr>gridRowEnd := spanFor (height n) gap\<rparr>
                                 else n)
                         (children g),
                     galleryClasses :=
                       (if ''gallery-masonry-enabled'' \<in> set (galleryClasses g)
                        then galleryClasses g
                        else galleryClasses g @ [''gallery-masonry-enabled''])\<rparr>))"

section \<open>The tab set\<close>

text \<open>
  The variables \<^verbatim>\<open>renderPortfolio\<close>'s closures share: the resolved categories and the two
  arrays of elements. The tab buttons are also the children of the \<^verbatim>\<open>tablist\<close> container
  and the panels those of the second container, both appended to the root; the record
  holds the elements, and \<open>sync\<close> writes the two containers, rebuilt from it, to their
  places \<open>slot\<close> and \<open>slot + 1\<close> among the root's children after each change.
\<close>

record tabset =
  cats :: "category list"
  tabEls :: "node list"
  panelEls :: "node list"
  mountRoot :: string
  slot :: nat

definition tabsContainer :: "node list \<Rightarrow> node" where
  "tabsContainer tabs =
     fold (\<lambda>c nd. appendChild nd c) tabs
       (el ''div'' [(''class'', ''tabs''), (''role'', ''tablist''),
                    (''aria-label'', ''Portfolio categories'')] [])"

definition panelsWrap :: "node list \<Rightarrow> node" where
  "panelsWrap panels = fold (\<lambda>c nd. appendChild nd c) panels (el ''div'' [] [])"

definition sync :: "tabset \<Rightarrow> page \<Rightarrow> page" where
  "sync ts p =
     (case elements p (mountRoot ts) of
        None \<Rightarrow> p
      | Some kids \<Rightarrow>
          p\<lparr>elements := (elements p)(mountRoot ts \<mapsto>
               kids[slot ts := tabsContainer (tabEls ts),
                    Suc (slot ts) := panelsWrap (panelEls ts)])\<rparr>)"

text \<open>\<^verbatim>\<open>xs[index]\<close> for a number \<^verbatim>\<open>index\<close>: \<^verbatim>\<open>undefined\<close> outside the array.\<close>

definition elementAt :: "'a list \<Rightarrow> int \<Rightarrow> 'a option" where
  "elementAt xs i = (if 0 \<le> i \<and> i < int (length xs) then Some (xs ! nat i) else None)"

text \<open>The two \<^verbatim>\<open>forEach\<close> loops of \<^verbatim>\<open>activate\<close>.\<close>

definition selectTabs :: "int \<Rightarrow> node list \<Rightarrow> node list" where
  "selectTabs index tabs =
     map (\<lambda>(i, t).
            set_tabIndex (if int i = index then 0 else - 1)
              (setAttribute ''aria-selected'' (if int i = index then ''true'' else ''false'') t))
       (enumerate 0 tabs)"

definition showPanel :: "int \<Rightarrow> node list \<Rightarrow> node list" where
  "showPanel index panels =
     map (\<lambda>(i, pn). set_hidden (int i \<noteq> index) pn) (enumerate 0 panels)"

text \<open>\<^verbatim>\<open>const gallery = panelEls[index]?.querySelector('.gallery');
  if (gallery) enableMasonry(gallery);\<close>\<close>

definition enablePanelMasonry :: "int \<Rightarrow> node list \<Rightarrow> page \<Rightarrow> node list \<times> page" where
  "enablePanelMasonry index panels p =
     (case elementAt panels index of
        None \<Rightarrow> (panels, p)
      | Some pn \<Rightarrow>
          (case querySelector (hasClass ''gallery'') (childNodes pn) of
             None \<Rightarrow> (panels, p)
           | Some gallery \<Rightarrow>
               let (gallery', p') = enableMasonry gallery p in
               (panels[nat index :=
                   set_childNodes (replaceFirst (hasClass ''gallery'') gallery' (childNodes pn)) pn],
                p')))"

text \<open>\<^verbatim>\<open>try { history.replaceState(null, '', `#${name}`); } catch (_) { location.hash = name; }\<close>.
  Either way the fragment of the page's URL becomes the name; the percent-encoding the
  browser applies to a name that is not URL-safe is not modelled.\<close>

definition writeHash :: "string \<Rightarrow> page \<Rightarrow> page" where
  "writeHash n p =
     (if replaceStateThrows p
      then p\<lparr>hash := (if n = [] then [] else CHR ''#'' # n), assigned := assigned p @ [n]\<rparr>
      else p\<lparr>hash := (if n = [] then [] else CHR ''#'' # n),
             replaced := replaced p @ [CHR ''#'' # n]\<rparr>)"

text \<open>
  \<^verbatim>\<open>activate(index, setHash)\<close> in two parts. \<open>markActive\<close> is its first part: the two loops
  and, in the program with the masonry layout, the step that enables the layout of the
  panel's gallery.
\<close>

definition markActive :: "variant \<Rightarrow> int \<Rightarrow> tabset \<times> page \<Rightarrow> tabset \<times> page" where
  "markActive v index st =
     (let shown = showPanel index (panelEls (fst st));
          enabled = (case v of
                       Masonry \<Rightarrow> enablePanelMasonry index shown (snd st)
                     | Plain \<Rightarrow> (shown, snd st));
          ts' = (fst st)\<lparr>tabEls := selectTabs index (tabEls (fst st)), panelEls := fst enabled\<rparr>
      in (ts', sync ts' (snd enabled)))"

text \<open>
  The result of \<open>activate\<close> is the error thrown, if any, with the tab set and the page as
  they are when the function returns or throws: reading \<^verbatim>\<open>cats[index].name\<close> or calling
  \<^verbatim>\<open>tabEls[index].focus\<close> outside the arrays is a \<^verbatim>\<open>TypeError\<close>, thrown after the first
  part has run.
\<close>

definition activate ::
    "variant \<Rightarrow> int \<Rightarrow> bool \<Rightarrow> tabset \<times> page \<Rightarrow> error option \<times> tabset \<times> page" where
  "activate v index setHash st =
     (let ts' = fst (markActive v index st);
          p2 = snd (markActive v index st)
      in if setHash \<and> elementAt (cats ts') index = None then (Some TypeError, ts', p2)
         else
           let p3 = (case elementAt (cats ts') index of
                       Some cat \<Rightarrow> if setHash then writeHash (name cat) p2 else p2
                     | None \<Rightarrow> p2)
           in (case elementAt (tabEls ts') index of
                 None \<Rightarrow> (Some TypeError, ts', p3)
               | Some t \<Rightarrow> (None, ts', p3\<lparr>activeElement := getAttribute ''id'' t\<rparr>)))"

section \<open>renderPortfolio\<close>

text \<open>The tab button and the panel the loop over the categories builds for one category.\<close>

definition buildTab :: "category \<Rightarrow> node" where
  "buildTab cat =
     set_tabIndex (- 1)
       (el ''button''
          [(''class'', ''tab''), (''role'', ''tab''), (''id'', ''tab-'' @ name cat),
           (''aria-selected'', ''false''), (''aria-controls'', ''panel-'' @ name cat)]
          [TextNode (titleOrHumanized cat)])"

text \<open>\<^verbatim>\<open>cat.images.forEach\<close> on a category without \<^verbatim>\<open>images\<close> is a \<^verbatim>\<open>TypeError\<close>.\<close>

definition buildPanel :: "variant \<Rightarrow> manifest \<Rightarrow> category \<Rightarrow> error + node" where
  "buildPanel v m cat =
     (case images cat of
        None \<Rightarrow> Inl TypeError
      | Some files \<Rightarrow>
          let panel = el ''div'' [(''class'', ''tab-panel''), (''id'', ''panel-'' @ name cat),
                                  (''role'', ''tabpanel''),
                                  (''aria-labelledby'', ''tab-'' @ name cat)] [];
              gallery = el ''div''
                          [(''class'', (case v of Masonry \<Rightarrow> ''gallery gallery-masonry''
                                                | Plain \<Rightarrow> ''gallery''))] [];
              gallery' = fold (\<lambda>file g. appendChild g (figureFor v (imageSrc m cat file) (imageAlt cat)))
                           files gallery
          in Inr (set_hidden True (appendChild panel gallery')))"

fun buildPanels :: "variant \<Rightarrow> manifest \<Rightarrow> category list \<Rightarrow> error + node list" where
  "buildPanels v m [] = Inr []"
| "buildPanels v m (cat # rest) =
     (case buildPanel v m cat of
        Inl e \<Rightarrow> Inl e
      | Inr pn \<Rightarrow> (case buildPanels v m rest of Inl e \<Rightarrow> Inl e | Inr pns \<Rightarrow> Inr (pn # pns)))"

text \<open>\<^verbatim>\<open>(location.hash || '').replace('#', '')\<close>: a string pattern replaces its first
  occurrence only.\<close>

definition hashFragment :: "string \<Rightarrow> string" where
  "hashFragment h = remove1 (CHR ''#'') h"

fun findIndex :: "('a \<Rightarrow> bool) \<Rightarrow> 'a list \<Rightarrow> int" where
  "findIndex P [] = - 1"
| "findIndex P (x # xs) =
     (if P x then 0 else (let r = findIndex P xs in if r < 0 then - 1 else r + 1))"

text \<open>\<^verbatim>\<open>Math.max(0, cats.findIndex(c => c.name === wanted))\<close> for the value of
  \<^verbatim>\<open>location.hash\<close> read after the tab set is appended.\<close>

definition initialIndex :: "category list \<Rightarrow> string \<Rightarrow> int" where
  "initialIndex cs h = max 0 (findIndex (\<lambda>c. name c = hashFragment h) cs)"

text \<open>The tab set as the loop over the categories leaves it, appended to the root: the
  tab buttons, the panels built for the categories, and the two containers.\<close>

definition mount :: "category list \<Rightarrow> node list \<Rightarrow> string \<Rightarrow> page \<Rightarrow> tabset \<times> page" where
  "mount cs panels rootId p =
     (\<lparr>cats = cs, tabEls = map buildTab cs, panelEls = panels, mountRoot = rootId,
       slot = (case elements p rootId of None \<Rightarrow> 0 | Some kids \<Rightarrow> length kids)\<rparr>,
      appendTo rootId (panelsWrap panels) (appendTo rootId (tabsContainer (map buildTab cs)) p))"

text \<open>The body of the \<^verbatim>\<open>try\<close> block: the error it throws, if any, the page, and the tab
  set once it is built.\<close>

definition portfolioBody ::
    "variant \<Rightarrow> string \<Rightarrow> page \<Rightarrow> error option \<times> page \<times> tabset option" where
  "portfolioBody v rootId p =
     (case loadManifest p of
        (Inl e, p1) \<Rightarrow> (Some e, p1, None)
      | (Inr m, p1) \<Rightarrow>
          let cs = resolveCategories v (objectProto p1) m in
          if cs = [] then (None, appendTo rootId (statusMessage ''No images found.'') p1, None)
          else
            (case buildPanels v m cs of
               Inl e \<Rightarrow> (Some e, p1, None)
             | Inr panels \<Rightarrow>
                 let st = mount cs panels rootId p1 in
                 (case activate v (initialIndex cs (hash (snd st))) False st of
                    (err, ts', p3) \<Rightarrow> (err, p3, Some ts'))))"

definition portfolioFailure :: "page \<Rightarrow> string" where
  "portfolioFailure p =
     (if protocol p = ''file:'' then ''Galleries need a local server. Run `make serve` and reload.''
      else ''No images found.'')"

text \<open>\<^verbatim>\<open>renderPortfolio(rootId)\<close>: the page when the returned promise settles, and the tab
  set if one was built. Every statement that can throw stands inside the \<^verbatim>\<open>try\<close> block,
  so the promise is never rejected.\<close>

definition renderPortfolio :: "variant \<Rightarrow> string \<Rightarrow> page \<Rightarrow> page \<times> tabset option" where
  "renderPortfolio v rootId p =
     (case elements p rootId of
        None \<Rightarrow> (p, None)
      | Some kids \<Rightarrow>
          (case portfolioBody v rootId p of
             (None, p', w) \<Rightarrow> (p', w)
           | (Some e, p', w) \<Rightarrow> (appendTo rootId (statusMessage (portfolioFailure p')) p', w)))"

subsection \<open>The listeners\<close>

text \<open>The \<^verbatim>\<open>click\<close> and \<^verbatim>\<open>keydown\<close> listeners of the tab at position \<open>i\<close>, and the
  \<^verbatim>\<open>hashchange\<close> listener. A tab that does not exist receives no event. \<open>jsRem\<close> is the
  \<^verbatim>\<open>%\<close> of two integers with a divisor that is not zero: the sign follows the dividend.\<close>

definition jsRem :: "int \<Rightarrow> int \<Rightarrow> int" where
  "jsRem a n = sgn a * (\<bar>a\<bar> mod \<bar>n\<bar>)"

definition click :: "variant \<Rightarrow> nat \<Rightarrow> tabset \<times> page \<Rightarrow> error option \<times> tabset \<times> page" where
  "click v i st =
     (if i < length (tabEls (fst st)) then activate v (int i) True st
      else (None, fst st, snd st))"

text \<open>The first component tells whether \<^verbatim>\<open>e.preventDefault()\<close> was called.\<close>

definition keydown ::
    "variant \<Rightarrow> nat \<Rightarrow> string \<Rightarrow> tabset \<times> page \<Rightarrow> bool \<times> error option \<times> tabset \<times> page" where
  "keydown v i key st =
     (if i < length (tabEls (fst st)) then
        (let n = int (length (tabEls (fst st)));
             ni = (if key = ''ArrowRight'' then Some (jsRem (int i + 1) n)
                   else if key = ''ArrowLeft'' then Some (jsRem (int i - 1 + n) n)
                   else if key = ''Home'' then Some 0
                   else if key = ''End'' then Some (n - 1)
                   else None)
         in (case ni of
               None \<Rightarrow> (False, None, fst st, snd st)
             | Some k \<Rightarrow> (True, activate v k True st)))
      else (False, None, fst st, snd st))"

definition hashchange :: "variant \<Rightarrow> tabset \<times> page \<Rightarrow> error option \<times> tabset \<times> page" where
  "hashchange v st =
     (let h = hashFragment (hash (snd st));
          idx = findIndex (\<lambda>c. name c = h) (cats (fst st))
      in if idx \<ge> 0 then activate v idx False st else (None, fst st, snd st))"

section \<open>renderFeatured\<close>

text \<open>\<^verbatim>\<open>flat.slice(0, count)\<close>: a negative end counts from the end of the array.\<close>

definition slice0 :: "'a list \<Rightarrow> int \<Rightarrow> 'a list" where
  "slice0 xs e =
     take (nat (if e < 0 then max (int (length xs) + e) 0 else min e (int (length xs)))) xs"

text \<open>The \<^verbatim>\<open>{ src, alt }\<close> objects in the order the two nested loops push them.\<close>

definition flatten :: "manifest \<Rightarrow> category list \<Rightarrow> (string \<times> string) list" where
  "flatten m cs =
     concat (map (\<lambda>cat. map (\<lambda>file. (imageSrc m cat file, imageAlt cat))
                         (case images cat of None \<Rightarrow> [] | Some files \<Rightarrow> files)) cs)"

text \<open>The body of the \<^verbatim>\<open>try\<close> block; \<^verbatim>\<open>manifest.categories.forEach\<close> without
  \<^verbatim>\<open>categories\<close> is a \<^verbatim>\<open>TypeError\<close>. \<open>count\<close> is \<open>None\<close> when the argument is left out.\<close>

definition featuredBody :: "variant \<Rightarrow> string \<Rightarrow> int option \<Rightarrow> page \<Rightarrow> error option \<times> page" where
  "featuredBody v rootId count p =
     (case loadManifest p of
        (Inl e, p1) \<Rightarrow> (Some e, p1)
      | (Inr m, p1) \<Rightarrow>
          (case categories m of
             None \<Rightarrow> (Some TypeError, p1)
           | Some cs \<Rightarrow>
               let taken = slice0 (flatten m cs) (case count of None \<Rightarrow> 6 | Some c \<Rightarrow> c)
               in (None, fold (\<lambda>(src, alt) q. appendTo rootId (figureFor v src alt) q) taken p1)))"

definition featuredFailure :: "page \<Rightarrow> string" where
  "featuredFailure p =
     (if protocol p = ''file:''
      then ''Featured images need a local server. Run `make serve` and reload.''
      else ''No featured images found.'')"

definition renderFeatured :: "variant \<Rightarrow> string \<Rightarrow> int option \<Rightarrow> page \<Rightarrow> page" where
  "renderFeatured v rootId count p =
     (case elements p rootId of
        None \<Rightarrow> p
      | Some kids \<Rightarrow>
          (case featuredBody v rootId count p of
             (None, p') \<Rightarrow> p'
           | (Some e, p') \<Rightarrow> appendTo rootId (statusMessage (featuredFailure p')) p'))"

text \<open>The \<^verbatim>\<open>src\<close> attributes of the \<^verbatim>\<open>img\<close> elements of a list of nodes, in document order.\<close>

fun imgSources :: "node list \<Rightarrow> string list" where
  "imgSources [] = []"
| "imgSources (TextNode s # ns) = imgSources ns"
| "imgSources (Element tag cls attrs ti hid kids # ns) =
     (if tag = ''img'' then (case map_of attrs ''src'' of Some u \<Rightarrow> [u] | None \<Rightarrow> []) else [])
     @ imgSources kids @ imgSources ns"

text \<open>
  A rendered tab set has one tab button and one panel for each category, all of them
  elements: this is what \<^verbatim>\<open>renderPortfolio\<close> builds and what \<^verbatim>\<open>activate\<close> keeps.
\<close>

fun isElement :: "node \<Rightarrow> bool" where
  "isElement (Element tag cls attrs ti hid kids) = True"
| "isElement (TextNode s) = False"

definition rendered :: "tabset \<Rightarrow> bool" where
  "rendered ts =
     (length (tabEls ts) = length (cats ts) \<and> length (panelEls ts) = length (cats ts) \<and>
      list_all isElement (tabEls ts) \<and> list_all isElement (panelEls ts))"

section \<open>Example data\<close>

text \<open>A manifest with two non-empty categories and an empty one, a page that serves it,
  and the tab set the plain program renders on that page.\<close>

definition exampleCategories :: "category list" where
  "exampleCategories =
     [\<lparr>name = ''weddings'', title = None, images = Some [''c.jpg'']\<rparr>,
      \<lparr>name = ''food'', title = Some ''Street food'', images = Some [''a.jpg'', ''b.jpg'']\<rparr>,
      \<lparr>name = ''drafts'', title = None, images = Some []\<rparr>]"

definition exampleManifest :: manifest where
  "exampleManifest = \<lparr>basePath = ''img'', categories = Some exampleCategories\<rparr>"

definition examplePage :: page where
  "examplePage =
     \<lparr>protocol = ''https:'', hash = ''#food'', server = Response True (Some exampleManifest),
      replaceStateThrows = False, objectProto = [],
      elements = [''portfolio'' \<mapsto> [TextNode ''Portfolio'']],
      fetches = 0, replaced = [], assigned = [], activeElement = None, frames = 0,
      resizeListeners = 0\<rparr>"

definition emptyTabset :: tabset where
  "emptyTabset = \<lparr>cats = [], tabEls = [], panelEls = [], mountRoot = [], slot = 0\<rparr>"

definition exampleTabset :: "variant \<Rightarrow> tabset" where
  "exampleTabset v =
     (case snd (renderPortfolio v ''portfolio'' examplePage) of
        Some ts \<Rightarrow> ts
      | None \<Rightarrow> emptyTabset)"

text \<open>A laid-out gallery with two items and a child that is not an item, and one with an
  item 64 pixels high and a row gap of 3.2 pixels, that is of the double nearest to 3.2.\<close>

definition exampleGallery :: gallery where
  "exampleGallery =
     \<lparr>isConnected = True, clientRects = 1, parsedGap = Some 10, galleryClasses = [''gallery''],
      children = [\<lparr>classList = Some [''gallery-item''], height = 100, gridRowEnd = Unset\<rparr>,
                  \<lparr>classList = None, height = 40, gridRowEnd = Unset\<rparr>,
                  \<lparr>classList = Some [''gallery-item''], height = 0, gridRowEnd = Unset\<rparr>]\<rparr>"

definition stretchedGallery :: gallery where
  "stretchedGallery =
     \<lparr>isConnected = True, clientRects = 1, parsedGap = Some (3602879701896397 / 2 ^ 50),
      galleryClasses = [''gallery''],
      children = [\<lparr>classList = Some [''gallery-item''], height = 64, gridRowEnd = Unset\<rparr>]\<rparr>"

text \<open>Three non-empty categories, two of them named in the priority list.\<close>

definition mixedCategories :: "category list" where
  "mixedCategories =
     [\<lparr>name = ''food'', title = None, images = Some [''a.jpg'']\<rparr>,
      \<lparr>name = ''weddings'', title = None, images = Some [''b.jpg'']\<rparr>,
      \<lparr>name = ''portraits'', title = Some ''Faces'', images = Some [''c.jpg'']\<rparr>]"

text \<open>A category with a title of its own whose name is in the table of titles, and one
  with neither.\<close>

definition titledLandscapes :: category where
  "titledLandscapes = \<lparr>name = ''landscapes'', title = Some ''Nature'', images = Some [''a.jpg'']\<rparr>"

definition streetFood :: category where
  "streetFood = \<lparr>name = ''street-food'', title = None, images = Some [''a.jpg'']\<rparr>"

section \<open>Properties\<close>

subsection \<open>humanize\<close>

lemma humanize_example: "humanize ''photo-tours'' = ''Photo Tours''"
  by (simp add: humanize_def is_sep_def is_word_def toUpperCase_def)

lemma collapse_no_sep: "\<forall>c\<in>set (collapse s). \<not> is_sep c"
proof (induction s rule: collapse.induct)
  case 1
  then show ?case by simp
next
  case (2 d ds)
  have sp: "\<not> is_sep (CHR '' '')"
    by (simp add: is_sep_def)
  show ?case
  proof (cases "is_sep d")
    case True
    with 2 sp show ?thesis by simp
  next
    case False
    with 2 show ?thesis by simp
  qed
qed

lemma toUpperCase_not_sep:
  assumes "\<not> is_sep c"
  shows "\<not> is_sep (toUpperCase c)"
proof (cases "map_of (zip ''abcdefghijklmnopqrstuvwxyz'' ''ABCDEFGHIJKLMNOPQRSTUVWXYZ'') c")
  case None
  with assms show ?thesis by (simp add: toUpperCase_def)
next
  case (Some u)
  then have "u \<in> set ''ABCDEFGHIJKLMNOPQRSTUVWXYZ''"
    by (meson map_of_SomeD set_zip_rightD)
  then have "\<not> is_sep u"
    unfolding is_sep_def by auto
  with Some show ?thesis by (simp add: toUpperCase_def)
qed

lemma capitalize_no_sep:
  "\<forall>c\<in>set s. \<not> is_sep c \<Longrightarrow> \<forall>c\<in>set (capitalize b s). \<not> is_sep c"
proof (induction s arbitrary: b)
  case Nil
  then show ?case by simp
next
  case (Cons d ds)
  from Cons.prems have d: "\<not> is_sep d" and ds: "\<forall>c\<in>set ds. \<not> is_sep c"
    by simp_all
  from d have "\<not> is_sep (if is_word d \<and> \<not> b then toUpperCase d else d)"
    by (simp add: toUpperCase_not_sep)
  with Cons.IH [OF ds, of "is_word d"] show ?case
    by simp
qed

lemma humanize_no_separator:
  "CHR ''-'' \<notin> set (humanize n) \<and> CHR ''_'' \<notin> set (humanize n)"
proof -
  have "\<forall>c\<in>set (humanize n). \<not> is_sep c"
    unfolding humanize_def by (rule capitalize_no_sep) (rule collapse_no_sep)
  then show ?thesis
    unfolding is_sep_def by blast
qed

lemma length_capitalize: "length (capitalize b s) = length s"
  by (induction s arbitrary: b) simp_all

subsection \<open>Elements and the two loops of activate\<close>

lemma map_of_update_attr_same: "map_of (update_attr k v kvs) k = Some v"
  by (induction kvs) auto

lemma map_of_update_attr_other: "k' \<noteq> k \<Longrightarrow> map_of (update_attr k v kvs) k' = map_of kvs k'"
  by (induction kvs) auto

lemma selected_tab_attr:
  "isElement t \<Longrightarrow> getAttribute k (set_tabIndex i (setAttribute k v t)) = Some v"
  by (cases t) (simp_all add: map_of_update_attr_same)

lemma selected_tab_index:
  "isElement t \<Longrightarrow> tabIndex (set_tabIndex i (setAttribute k v t)) = Some i"
  by (cases t) simp_all

lemma selected_tab_isElement:
  "isElement t \<Longrightarrow> isElement (set_tabIndex i (setAttribute k v t))"
  by (cases t) simp_all

lemma length_selectTabs: "length (selectTabs i tabs) = length tabs"
  by (simp add: selectTabs_def)

lemma nth_selectTabs:
  "j < length tabs \<Longrightarrow>
   selectTabs i tabs ! j =
     set_tabIndex (if int j = i then 0 else - 1)
       (setAttribute ''aria-selected'' (if int j = i then ''true'' else ''false'') (tabs ! j))"
  by (simp add: selectTabs_def nth_enumerate_eq)

lemma selectTabs_aria:
  assumes "list_all isElement tabs"
  shows "map (getAttribute ''aria-selected'') (selectTabs i tabs) =
         map (\<lambda>j. Some (if int j = i then ''true'' else ''false'')) [0..<length tabs]"
proof (rule nth_equalityI)
  show "length (map (getAttribute ''aria-selected'') (selectTabs i tabs)) =
        length (map (\<lambda>j. Some (if int j = i then ''true'' else ''false'')) [0..<length tabs])"
    by (simp add: length_selectTabs)
next
  fix j assume "j < length (map (getAttribute ''aria-selected'') (selectTabs i tabs))"
  then have j: "j < length tabs" by (simp add: length_selectTabs)
  with assms have "isElement (tabs ! j)" by (simp add: list_all_length)
  with j show "map (getAttribute ''aria-selected'') (selectTabs i tabs) ! j =
        map (\<lambda>j. Some (if int j = i then ''true'' else ''false'')) [0..<length tabs] ! j"
    by (simp add: length_selectTabs nth_selectTabs selected_tab_attr)
qed

lemma selectTabs_tabIndex:
  assumes "list_all isElement tabs"
  shows "map tabIndex (selectTabs i tabs) =
         map (\<lambda>j. Some (if int j = i then 0 else - 1)) [0..<length tabs]"
proof (rule nth_equalityI)
  show "length (map tabIndex (selectTabs i tabs)) =
        length (map (\<lambda>j. Some (if int j = i then 0 else - 1 :: int)) [0..<length tabs])"
    by (simp add: length_selectTabs)
next
  fix j assume "j < length (map tabIndex (selectTabs i tabs))"
  then have j: "j < length tabs" by (simp add: length_selectTabs)
  with assms have "isElement (tabs ! j)" by (simp add: list_all_length)
  with j show "map tabIndex (selectTabs i tabs) ! j =
        map (\<lambda>j. Some (if int j = i then 0 else - 1)) [0..<length tabs] ! j"
    by (simp add: length_selectTabs nth_selectTabs selected_tab_index)
qed

lemma hidden_set_hidden: "isElement pn \<Longrightarrow> hidden (set_hidden b pn) = b"
  by (cases pn) simp_all

lemma length_showPanel: "length (showPanel i panels) = length panels"
  by (simp add: showPanel_def)

lemma showPanel_hidden:
  assumes "list_all isElement panels"
  shows "map hidden (showPanel i panels) = map (\<lambda>j. int j \<noteq> i) [0..<length panels]"
proof (rule nth_equalityI)
  show "length (map hidden (showPanel i panels)) = length (map (\<lambda>j. int j \<noteq> i) [0..<length panels])"
    by (simp add: length_showPanel)
next
  fix j assume "j < length (map hidden (showPanel i panels))"
  then have j: "j < length panels" by (simp add: length_showPanel)
  with assms have "isElement (panels ! j)" by (simp add: list_all_length)
  with j show "map hidden (showPanel i panels) ! j = map (\<lambda>j. int j \<noteq> i) [0..<length panels] ! j"
    by (simp add: showPanel_def nth_enumerate_eq hidden_set_hidden)
qed

lemma hidden_set_childNodes: "hidden (set_childNodes ks pn) = hidden pn"
  by (cases pn) simp_all

lemma isElement_set_childNodes: "isElement (set_childNodes ks pn) = isElement pn"
  by (cases pn) simp_all

lemma map_update_same:
  assumes "f y = f (xs ! k)"
  shows "map f (xs[k := y]) = map f xs"
proof (cases "k < length xs")
  case True
  with assms show ?thesis
    by (simp add: map_update list_update_same_conv)
next
  case False
  then show ?thesis
    by (simp add: list_update_beyond)
qed

lemma enablePanelMasonry_hidden:
  "map hidden (fst (enablePanelMasonry i panels p)) = map hidden panels"
  by (auto simp: enablePanelMasonry_def elementAt_def map_update_same hidden_set_childNodes
      split: option.splits prod.splits)

lemma enablePanelMasonry_length:
  "length (fst (enablePanelMasonry i panels p)) = length panels"
  by (auto simp: enablePanelMasonry_def elementAt_def split: option.splits prod.splits)

subsection \<open>activate\<close>

lemma activate_tabset: "fst (snd (activate v i h st)) = fst (markActive v i st)"
  by (simp add: activate_def Let_def split: option.splits)

lemma markActive_tabEls: "tabEls (fst (markActive v i st)) = selectTabs i (tabEls (fst st))"
  by (simp add: markActive_def Let_def)

lemma markActive_cats: "cats (fst (markActive v i st)) = cats (fst st)"
  by (simp add: markActive_def Let_def)

lemma markActive_hidden:
  "map hidden (panelEls (fst (markActive v i st))) = map hidden (showPanel i (panelEls (fst st)))"
  by (cases v) (simp_all add: markActive_def Let_def enablePanelMasonry_hidden)

lemma activate_no_error:
  assumes "0 \<le> i" "i < int (length (tabEls (fst st)))"
    "length (tabEls (fst st)) = length (cats (fst st))"
  shows "fst (activate v i h st) = None"
  using assms
  by (simp add: activate_def Let_def elementAt_def length_selectTabs markActive_tabEls
      markActive_cats)

lemma filter_upt_eq: "k < n \<Longrightarrow> filter (\<lambda>j. j = k) [0..<n] = [k]"
  by (induction n) (auto simp: less_Suc_eq)

lemma one_visible:
  assumes "map hidden pns = map (\<lambda>j. int j \<noteq> i) [0..<n]" "0 \<le> i" "i < int n"
  shows "length (filter (\<lambda>pn. \<not> hidden pn) pns) = 1"
proof -
  have "length (filter (\<lambda>pn. \<not> hidden pn) pns) = length (filter (\<lambda>b. \<not> b) (map hidden pns))"
    by (simp add: filter_map comp_def)
  also have "\<dots> = length (filter (\<lambda>j. \<not> int j \<noteq> i) [0..<n])"
    by (simp only: assms(1) filter_map comp_def length_map)
  also have "filter (\<lambda>j. \<not> int j \<noteq> i) [0..<n] = filter (\<lambda>j. j = nat i) [0..<n]"
    using assms(2) by (intro filter_cong) auto
  also have "length (filter (\<lambda>j. j = nat i) [0..<n]) = 1"
    using assms(2,3) by (simp add: filter_upt_eq)
  finally show ?thesis .
qed

text \<open>
  Claim C1. On a rendered tab set, \<^verbatim>\<open>activate(i, _)\<close> with a valid index \<open>i\<close> returns
  without an error and leaves \<^verbatim>\<open>aria-selected\<close> at \<^verbatim>\<open>"true"\<close> on the tab at \<open>i\<close> and at
  \<^verbatim>\<open>"false"\<close> on every other tab, \<^verbatim>\<open>tabIndex\<close> at 0 on the tab at \<open>i\<close> and at -1 on the
  others, and \<^verbatim>\<open>hidden\<close> false on the panel at \<open>i\<close> and true on the others, so that exactly
  one panel is visible. This holds in both programs and for either value of the second
  argument.
\<close>

theorem activate_selects_exactly_one:
  assumes "rendered ts" and "0 \<le> i" and "i < int (length (tabEls ts))"
    and "activate v i setHash (ts, p) = (err, ts', p')"
  shows "err = None
       \<and> map (getAttribute ''aria-selected'') (tabEls ts') =
           map (\<lambda>j. Some (if int j = i then ''true'' else ''false'')) [0..<length (tabEls ts)]
       \<and> map tabIndex (tabEls ts') =
           map (\<lambda>j. Some (if int j = i then 0 else - 1)) [0..<length (tabEls ts)]
       \<and> map hidden (panelEls ts') = map (\<lambda>j. int j \<noteq> i) [0..<length (tabEls ts)]
       \<and> length (filter (\<lambda>pn. \<not> hidden pn) (panelEls ts')) = 1"
proof -
  from assms(1) have len: "length (tabEls ts) = length (cats ts)" "length (panelEls ts) = length (tabEls ts)"
    and els: "list_all isElement (tabEls ts)" "list_all isElement (panelEls ts)"
    by (simp_all add: rendered_def)
  have e: "err = fst (activate v i setHash (ts, p))" and t: "ts' = fst (snd (activate v i setHash (ts, p)))"
    using assms(4) by simp_all
  have 1: "err = None" using e activate_no_error [of i "(ts, p)"] assms(2,3) len(1) by simp
  have 2: "map (getAttribute ''aria-selected'') (tabEls ts') =
           map (\<lambda>j. Some (if int j = i then ''true'' else ''false'')) [0..<length (tabEls ts)]"
    by (simp add: t activate_tabset markActive_tabEls selectTabs_aria [OF els(1)])
  have 3: "map tabIndex (tabEls ts') =
           map (\<lambda>j. Some (if int j = i then 0 else - 1)) [0..<length (tabEls ts)]"
    by (simp add: t activate_tabset markActive_tabEls selectTabs_tabIndex [OF els(1)])
  have 4: "map hidden (panelEls ts') = map (\<lambda>j. int j \<noteq> i) [0..<length (tabEls ts)]"
    by (simp add: t activate_tabset markActive_hidden showPanel_hidden [OF els(2)] len(2))
  have 5: "length (filter (\<lambda>pn. \<not> hidden pn) (panelEls ts')) = 1"
    using one_visible [OF 4 assms(2,3)] .
  from 1 2 3 4 5 show ?thesis by simp
qed
subsection \<open>Loading the manifest and building the tab set\<close>

lemma loadManifest_page:
  "snd (loadManifest p) = (if protocol p = ''file:'' then p else p\<lparr>fetches := Suc (fetches p)\<rparr>)"
  by (simp add: loadManifest_def Let_def split: fetch_outcome.splits option.splits)

lemma loadManifest_fields:
  "elements (snd (loadManifest p)) = elements p"
  "hash (snd (loadManifest p)) = hash p"
  "protocol (snd (loadManifest p)) = protocol p"
  "objectProto (snd (loadManifest p)) = objectProto p"
  "replaced (snd (loadManifest p)) = replaced p"
  "assigned (snd (loadManifest p)) = assigned p"
  by (simp_all add: loadManifest_page)

lemma find_SomeD: "find P xs = Some x \<Longrightarrow> x \<in> set xs \<and> P x"
  by (induction xs) (auto split: if_splits)

lemma byName_Some: "byName valid k = Some c \<Longrightarrow> c \<in> set valid \<and> name c = k"
  by (auto simp: byName_def dest!: find_SomeD)

lemma byName_None: "(byName valid k = None) = (k \<notin> name ` set valid)"
  by (auto simp: byName_def find_None_iff)

lemma set_map_filter_byName:
  "set (List.map_filter (byName valid) ks) \<subseteq> set valid"
  by (auto simp: List.map_filter_def dest: byName_Some)

lemma hasImages_withTitle: "hasImages (withTitle proto c) = hasImages c"
  by (simp add: hasImages_def withTitle_def)

lemma name_withTitle: "name (withTitle proto c) = name c"
  by (simp add: withTitle_def)

lemma nonEmptyCategories_hasImages: "c \<in> set (nonEmptyCategories cso) \<Longrightarrow> hasImages c"
  by (simp add: nonEmptyCategories_def)

lemma prioritizeCategories_subset:
  "set (prioritizeCategories proto cso) \<subseteq> withTitle proto ` set (nonEmptyCategories cso)"
  using set_map_filter_byName [of "nonEmptyCategories cso" CATEGORY_ORDER]
  by (auto simp: prioritizeCategories_def Let_def)

lemma resolveCategories_hasImages:
  "c \<in> set (resolveCategories v proto m) \<Longrightarrow> hasImages c"
  using prioritizeCategories_subset [of proto "categories m"]
  by (cases v) (auto simp: resolveCategories_def hasImages_withTitle nonEmptyCategories_hasImages)

lemma isElement_el: "isElement (el tag attrs kids)"
proof -
  have a: "\<And>nd. isElement nd \<Longrightarrow> isElement (fold (\<lambda>(k, v) nd.
            if k = ''class'' then set_className v nd
            else if k = ''text'' then set_textContent v nd
            else setAttribute k v nd) attrs nd)"
  proof (induction attrs)
    case Nil then show ?case by simp
  next
    case (Cons kv attrs)
    obtain k v where kv: "kv = (k, v)" by (cases kv)
    from Cons.prems have "isElement (if k = ''class'' then set_className v nd
            else if k = ''text'' then set_textContent v nd
            else setAttribute k v nd)"
      by (cases nd) simp_all
    from Cons.IH [OF this] show ?case by (simp add: kv)
  qed
  have b: "\<And>nd. isElement nd \<Longrightarrow> isElement (fold (\<lambda>c nd. appendChild nd c) kids nd)"
  proof (induction kids)
    case Nil then show ?case by simp
  next
    case (Cons c kids)
    from Cons.prems have "isElement (appendChild nd c)"
      by (cases nd) (simp_all add: appendChild_def)
    from Cons.IH [OF this] show ?case by simp
  qed
  show ?thesis
    unfolding el_def by (rule b, rule a) (simp add: createElement_def)
qed

lemma isElement_set_tabIndex: "isElement (set_tabIndex i nd) = isElement nd"
  by (cases nd) simp_all

lemma isElement_set_hidden: "isElement (set_hidden b nd) = isElement nd"
  by (cases nd) simp_all

lemma isElement_appendChild: "isElement (appendChild nd c) = isElement nd"
  by (cases nd) (simp_all add: appendChild_def)

lemma isElement_buildTab: "isElement (buildTab c)"
  by (simp add: buildTab_def isElement_set_tabIndex isElement_el)

lemma buildPanel_ok:
  "hasImages c \<Longrightarrow> \<exists>pn. buildPanel v m c = Inr pn \<and> isElement pn \<and> hidden pn"
  by (auto simp: buildPanel_def hasImages_def Let_def isElement_set_hidden isElement_appendChild
      isElement_el hidden_set_hidden split: option.splits)

lemma buildPanels_ok:
  "list_all hasImages cs \<Longrightarrow>
   \<exists>pns. buildPanels v m cs = Inr pns \<and> length pns = length cs \<and> list_all isElement pns"
proof (induction cs)
  case Nil
  then show ?case by simp
next
  case (Cons c cs)
  then obtain pns where pns: "buildPanels v m cs = Inr pns" "length pns = length cs"
      "list_all isElement pns" by auto
  from Cons.prems obtain pn where pn: "buildPanel v m c = Inr pn" "isElement pn"
    using buildPanel_ok [of c v m] by auto
  show ?case by (simp add: pns pn)
qed

lemma rendered_mount:
  "length panels = length cs \<Longrightarrow> list_all isElement panels \<Longrightarrow>
   rendered (fst (mount cs panels rootId p))"
  by (simp add: mount_def rendered_def list_all_iff isElement_buildTab)

subsection \<open>What activate and the mounting change on the page\<close>

lemma appendTo_fields:
  "hash (appendTo r nd p) = hash p"
  "replaced (appendTo r nd p) = replaced p"
  "assigned (appendTo r nd p) = assigned p"
  "protocol (appendTo r nd p) = protocol p"
  "fetches (appendTo r nd p) = fetches p"
  by (simp_all add: appendTo_def split: option.splits)

lemma appendTo_elements:
  "elements p r = Some kids \<Longrightarrow> elements (appendTo r nd p) = (elements p)(r \<mapsto> kids @ [nd])"
  by (simp add: appendTo_def)

lemma sync_fields:
  "hash (sync ts p) = hash p"
  "replaced (sync ts p) = replaced p"
  "assigned (sync ts p) = assigned p"
  by (simp_all add: sync_def split: option.splits)

lemma enablePanelMasonry_fields:
  "hash (snd (enablePanelMasonry i pns p)) = hash p"
  "replaced (snd (enablePanelMasonry i pns p)) = replaced p"
  "assigned (snd (enablePanelMasonry i pns p)) = assigned p"
  "elements (snd (enablePanelMasonry i pns p)) = elements p"
  by (auto simp: enablePanelMasonry_def enableMasonry_def split: option.splits prod.splits)

lemma markActive_fields:
  "hash (snd (markActive v i st)) = hash (snd st)"
  "replaced (snd (markActive v i st)) = replaced (snd st)"
  "assigned (snd (markActive v i st)) = assigned (snd st)"
  by (cases v; simp add: markActive_def Let_def sync_fields enablePanelMasonry_fields)+

lemma activate_quiet_fields:
  "hash (snd (snd (activate v i False st))) = hash (snd st)"
  "replaced (snd (snd (activate v i False st))) = replaced (snd st)"
  "assigned (snd (snd (activate v i False st))) = assigned (snd st)"
  by (simp_all add: activate_def Let_def markActive_fields split: option.splits)

lemma markActive_mount:
  "mountRoot (fst (markActive v i st)) = mountRoot (fst st)"
  "slot (fst (markActive v i st)) = slot (fst st)"
  by (simp_all add: markActive_def Let_def)

lemma sync_elements_cong:
  "elements q = elements p \<Longrightarrow> elements (sync ts q) = elements (sync ts p)"
  by (simp add: sync_def split: option.splits)

lemma markActive_elements:
  "elements (snd (markActive v i st)) =
     elements (sync (fst (markActive v i st)) (snd st))"
proof -
  let ?q = "case v of
              Masonry \<Rightarrow> snd (enablePanelMasonry i (showPanel i (panelEls (fst st))) (snd st))
            | Plain \<Rightarrow> snd st"
  have q: "elements ?q = elements (snd st)"
    by (cases v) (simp_all add: enablePanelMasonry_fields)
  have "snd (markActive v i st) = sync (fst (markActive v i st)) ?q"
    by (cases v) (simp_all add: markActive_def Let_def)
  then show ?thesis
    using sync_elements_cong [OF q] by simp
qed

lemma activate_elements:
  "elements (snd (snd (activate v i h st))) =
     elements (sync (fst (snd (activate v i h st))) (snd st))"
proof -
  have w: "\<And>n q. elements (writeHash n q) = elements q"
    by (simp add: writeHash_def)
  show ?thesis
    by (simp add: activate_def Let_def markActive_elements w split: option.splits)
qed

lemma sync_mounted:
  assumes "elements p r = Some (kids @ [a, b])" "mountRoot ts = r" "slot ts = length kids"
  shows "elements (sync ts p) =
         (elements p)(r \<mapsto> kids @ [tabsContainer (tabEls ts), panelsWrap (panelEls ts)])"
  using assms by (simp add: sync_def list_update_append)

lemma mount_elements:
  assumes "elements p r = Some kids"
  shows "elements (snd (mount cs pns r p)) r =
           Some (kids @ [tabsContainer (map buildTab cs), panelsWrap pns])"
    and "slot (fst (mount cs pns r p)) = length kids"
    and "mountRoot (fst (mount cs pns r p)) = r"
    and "cats (fst (mount cs pns r p)) = cs"
    and "tabEls (fst (mount cs pns r p)) = map buildTab cs"
    and "hash (snd (mount cs pns r p)) = hash p"
    and "replaced (snd (mount cs pns r p)) = replaced p"
    and "assigned (snd (mount cs pns r p)) = assigned p"
  using assms by (simp_all add: mount_def appendTo_def)

subsection \<open>findIndex\<close>

lemma findIndex_bounds: "- 1 \<le> findIndex P xs \<and> findIndex P xs < int (length xs)"
  by (induction xs) (auto simp: Let_def)

lemma findIndex_none: "(findIndex P xs < 0) = (\<forall>x\<in>set xs. \<not> P x)"
  using findIndex_bounds [of P] by (induction xs) (auto simp: Let_def)

lemma findIndex_found:
  "0 \<le> findIndex P xs \<Longrightarrow>
   P (xs ! nat (findIndex P xs)) \<and> (\<forall>j<nat (findIndex P xs). \<not> P (xs ! j))"
proof (induction xs)
  case Nil
  then show ?case by simp
next
  case (Cons x xs)
  show ?case
  proof (cases "P x")
    case True
    then show ?thesis by simp
  next
    case False
    with Cons.prems have r: "0 \<le> findIndex P xs"
      by (simp add: Let_def split: if_splits)
    with False have e: "findIndex P (x # xs) = findIndex P xs + 1"
      by (simp add: Let_def)
    have n: "nat (findIndex P xs + 1) = Suc (nat (findIndex P xs))"
      using r by simp
    from Cons.IH [OF r] False show ?thesis
      unfolding e n by (auto simp: less_Suc_eq_0_disj)
  qed
qed

lemma initialIndex_bounds:
  "cs \<noteq> [] \<Longrightarrow> 0 \<le> initialIndex cs h \<and> initialIndex cs h < int (length cs)"
  using findIndex_bounds [of "\<lambda>c. name c = hashFragment h" cs]
  by (cases cs) (auto simp: initialIndex_def)

subsection \<open>renderPortfolio on a manifest with a category to show\<close>

lemma resolveCategories_all_hasImages: "list_all hasImages (resolveCategories v proto m)"
  by (simp add: list_all_iff resolveCategories_hasImages)

lemma renderPortfolio_mounts:
  assumes root: "elements p rootId = Some kids"
    and load: "loadManifest p = (Inr m, p1)"
    and cs: "resolveCategories v (objectProto p) m = cs"
    and ne: "cs \<noteq> []"
  shows "\<exists>pns. buildPanels v m cs = Inr pns \<and> length pns = length cs \<and> list_all isElement pns \<and>
           renderPortfolio v rootId p =
             (snd (snd (activate v (initialIndex cs (hash p)) False (mount cs pns rootId p1))),
              Some (fst (snd (activate v (initialIndex cs (hash p)) False (mount cs pns rootId p1)))))"
proof -
  have p1: "p1 = snd (loadManifest p)" using load by simp
  have proto: "objectProto p1 = objectProto p" and h1: "hash p1 = hash p"
    and e1: "elements p1 = elements p"
    by (simp_all add: p1 loadManifest_fields)
  from resolveCategories_all_hasImages [of v "objectProto p" m] cs
  have "list_all hasImages cs" by simp
  from buildPanels_ok [OF this, of v m] obtain pns where
    pns: "buildPanels v m cs = Inr pns" "length pns = length cs" "list_all isElement pns"
    by blast
  let ?st = "mount cs pns rootId p1"
  have hs: "hash (snd ?st) = hash p"
    by (simp add: mount_def appendTo_fields h1)
  have r: "rendered (fst ?st)"
    by (rule rendered_mount) (simp_all add: pns)
  have len: "length (tabEls (fst ?st)) = length cs" "length (cats (fst ?st)) = length cs"
    by (simp_all add: mount_def)
  have ok: "fst (activate v (initialIndex cs (hash p)) False ?st) = None"
    using initialIndex_bounds [OF ne, of "hash p"]
    by (intro activate_no_error) (simp_all add: len)
  have body: "portfolioBody v rootId p =
      (None, snd (snd (activate v (initialIndex cs (hash p)) False ?st)),
       Some (fst (snd (activate v (initialIndex cs (hash p)) False ?st))))"
    using ok by (auto simp: portfolioBody_def load proto cs ne pns Let_def hs split: prod.splits)
  have "renderPortfolio v rootId p =
      (snd (snd (activate v (initialIndex cs (hash p)) False ?st)),
       Some (fst (snd (activate v (initialIndex cs (hash p)) False ?st))))"
    by (simp add: renderPortfolio_def root body)
  with pns show ?thesis by blast
qed

subsection \<open>The initial activation\<close>

lemma initialIndex_found:
  assumes "\<exists>c\<in>set cs. name c = hashFragment h"
  shows "name (cs ! nat (initialIndex cs h)) = hashFragment h
       \<and> (\<forall>j<nat (initialIndex cs h). name (cs ! j) \<noteq> hashFragment h)"
proof -
  have "\<not> findIndex (\<lambda>c. name c = hashFragment h) cs < 0"
    using assms by (simp add: findIndex_none)
  then have f: "0 \<le> findIndex (\<lambda>c. name c = hashFragment h) cs" by simp
  then have "initialIndex cs h = findIndex (\<lambda>c. name c = hashFragment h) cs"
    by (simp add: initialIndex_def)
  with findIndex_found [OF f] show ?thesis by simp
qed

lemma initialIndex_default:
  assumes "\<forall>c\<in>set cs. name c \<noteq> hashFragment h"
  shows "initialIndex cs h = 0"
proof -
  have "findIndex (\<lambda>c. name c = hashFragment h) cs < 0"
    using assms by (simp add: findIndex_none)
  then show ?thesis by (simp add: initialIndex_def)
qed

lemma hashchange_unmatched:
  assumes "\<forall>c\<in>set (cats ts). name c \<noteq> hashFragment (hash q)"
  shows "hashchange v (ts, q) = (None, ts, q)"
proof -
  have "findIndex (\<lambda>c. name c = hashFragment (hash q)) (cats ts) < 0"
    using assms by (simp add: findIndex_none)
  then show ?thesis by (simp add: hashchange_def Let_def)
qed

lemma activate_focus:
  assumes "0 \<le> i" "i < int (length (tabEls (fst st)))"
    "length (tabEls (fst st)) = length (cats (fst st))"
  shows "activeElement (snd (snd (activate v i h st))) =
           getAttribute ''id'' (selectTabs i (tabEls (fst st)) ! nat i)"
  using assms
  by (simp add: activate_def Let_def elementAt_def length_selectTabs markActive_tabEls
      markActive_cats)

lemma getAttribute_id_buildTab: "getAttribute ''id'' (buildTab c) = Some (''tab-'' @ name c)"
  by (simp add: buildTab_def el_def createElement_def appendChild_def)

lemma getAttribute_selected_other:
  "k \<noteq> ''aria-selected'' \<Longrightarrow>
   getAttribute k (set_tabIndex i (setAttribute ''aria-selected'' s t)) = getAttribute k t"
  by (cases t) (simp_all add: map_of_update_attr_other)

text \<open>
  Claim C7. When the root exists, the manifest loads and at least one category is to be
  rendered, \<^verbatim>\<open>renderPortfolio\<close> builds a tab set and activates the index
  \<open>initialIndex\<close>: the position of the first category whose name equals the fragment of
  \<^verbatim>\<open>location.hash\<close> (the hash without its first \<^verbatim>\<open>#\<close>) if there is one, and 0 otherwise.
  That tab is selected and focused and its panel is the visible one. The activation leaves
  \<^verbatim>\<open>location.hash\<close> as it was and neither calls \<^verbatim>\<open>history.replaceState\<close> nor assigns the
  hash. A later \<^verbatim>\<open>hashchange\<close> event whose fragment is the name of no rendered category
  changes nothing.
\<close>

theorem initial_activation_follows_fragment:
  assumes root: "elements p rootId = Some kids"
    and load: "loadManifest p = (Inr m, p1)"
    and ne: "resolveCategories v (objectProto p) m \<noteq> []"
    and r: "renderPortfolio v rootId p = (p', w)"
  shows "(\<exists>ts'. w = Some ts'
          \<and> cats ts' = resolveCategories v (objectProto p) m
          \<and> map (getAttribute ''aria-selected'') (tabEls ts') =
              map (\<lambda>j. Some (if int j = initialIndex (cats ts') (hash p) then ''true'' else ''false''))
                [0..<length (cats ts')]
          \<and> map hidden (panelEls ts') =
              map (\<lambda>j. int j \<noteq> initialIndex (cats ts') (hash p)) [0..<length (cats ts')]
          \<and> activeElement p' =
              Some (''tab-'' @ name (cats ts' ! nat (initialIndex (cats ts') (hash p))))
          \<and> 0 \<le> initialIndex (cats ts') (hash p)
          \<and> initialIndex (cats ts') (hash p) < int (length (cats ts'))
          \<and> ((\<exists>c\<in>set (cats ts'). name c = hashFragment (hash p)) \<longrightarrow>
                name (cats ts' ! nat (initialIndex (cats ts') (hash p))) = hashFragment (hash p)
                \<and> (\<forall>j<nat (initialIndex (cats ts') (hash p)).
                      name (cats ts' ! j) \<noteq> hashFragment (hash p)))
          \<and> ((\<forall>c\<in>set (cats ts'). name c \<noteq> hashFragment (hash p)) \<longrightarrow>
                initialIndex (cats ts') (hash p) = 0))
       \<and> hash p' = hash p \<and> replaced p' = replaced p \<and> assigned p' = assigned p
       \<and> (\<forall>ts q. (\<forall>c\<in>set (cats ts). name c \<noteq> hashFragment (hash q)) \<longrightarrow>
                   hashchange v (ts, q) = (None, ts, q))"
proof -
  define cs where "cs = resolveCategories v (objectProto p) m"
  define k where "k = initialIndex cs (hash p)"
  have cs: "resolveCategories v (objectProto p) m = cs" and ne': "cs \<noteq> []"
    using ne by (simp_all add: cs_def)
  from renderPortfolio_mounts [OF root load cs ne'] obtain pns where
    pns: "buildPanels v m cs = Inr pns" "length pns = length cs" "list_all isElement pns"
    and rp: "renderPortfolio v rootId p =
             (snd (snd (activate v k False (mount cs pns rootId p1))),
              Some (fst (snd (activate v k False (mount cs pns rootId p1)))))"
    unfolding k_def by blast
  define st where "st = mount cs pns rootId p1"
  define ts' where "ts' = fst (snd (activate v k False st))"
  have p1: "p1 = snd (loadManifest p)" using load by simp
  have p': "p' = snd (snd (activate v k False st))" and w: "w = Some ts'"
    using r rp by (simp_all add: st_def ts'_def)
  have st: "cats (fst st) = cs" "tabEls (fst st) = map buildTab cs" "panelEls (fst st) = pns"
    "hash (snd st) = hash p" "replaced (snd st) = replaced p" "assigned (snd st) = assigned p"
    by (simp_all add: st_def mount_def appendTo_fields p1 loadManifest_fields)
  have kb: "0 \<le> k" "k < int (length cs)"
    using initialIndex_bounds [OF ne', of "hash p"] by (simp_all add: k_def)
  have c: "cats ts' = cs"
    by (simp add: ts'_def activate_tabset markActive_cats st)
  have els: "list_all isElement (map buildTab cs)"
    by (simp add: list_all_iff isElement_buildTab)
  have a: "map (getAttribute ''aria-selected'') (tabEls ts') =
           map (\<lambda>j. Some (if int j = k then ''true'' else ''false'')) [0..<length cs]"
    using selectTabs_aria [OF els, of k]
    by (simp add: ts'_def activate_tabset markActive_tabEls st)
  have h: "map hidden (panelEls ts') = map (\<lambda>j. int j \<noteq> k) [0..<length cs]"
    using showPanel_hidden [OF pns(3), of k]
    by (simp add: ts'_def activate_tabset markActive_hidden st pns(2))
  have kn: "nat k < length cs" using kb by simp
  have f: "activeElement p' = Some (''tab-'' @ name (cs ! nat k))"
    using kb kn
    by (simp add: p' activate_focus st nth_selectTabs getAttribute_selected_other
        getAttribute_id_buildTab)
  have q: "hash p' = hash p" "replaced p' = replaced p" "assigned p' = assigned p"
    by (simp_all add: p' activate_quiet_fields st)
  have i1: "(\<exists>c\<in>set cs. name c = hashFragment (hash p)) \<longrightarrow>
              name (cs ! nat k) = hashFragment (hash p)
              \<and> (\<forall>j<nat k. name (cs ! j) \<noteq> hashFragment (hash p))"
    unfolding k_def using initialIndex_found [of cs "hash p"] by blast
  have i2: "(\<forall>c\<in>set cs. name c \<noteq> hashFragment (hash p)) \<longrightarrow> k = 0"
    unfolding k_def using initialIndex_default [of cs "hash p"] by blast
  have hc: "\<forall>ts q. (\<forall>c\<in>set (cats ts). name c \<noteq> hashFragment (hash q)) \<longrightarrow>
                   hashchange v (ts, q) = (None, ts, q)"
    using hashchange_unmatched by blast
  have first: "\<exists>ts'. w = Some ts'
          \<and> cats ts' = resolveCategories v (objectProto p) m
          \<and> map (getAttribute ''aria-selected'') (tabEls ts') =
              map (\<lambda>j. Some (if int j = initialIndex (cats ts') (hash p) then ''true'' else ''false''))
                [0..<length (cats ts')]
          \<and> map hidden (panelEls ts') =
              map (\<lambda>j. int j \<noteq> initialIndex (cats ts') (hash p)) [0..<length (cats ts')]
          \<and> activeElement p' =
              Some (''tab-'' @ name (cats ts' ! nat (initialIndex (cats ts') (hash p))))
          \<and> 0 \<le> initialIndex (cats ts') (hash p)
          \<and> initialIndex (cats ts') (hash p) < int (length (cats ts'))
          \<and> ((\<exists>c\<in>set (cats ts'). name c = hashFragment (hash p)) \<longrightarrow>
                name (cats ts' ! nat (initialIndex (cats ts') (hash p))) = hashFragment (hash p)
                \<and> (\<forall>j<nat (initialIndex (cats ts') (hash p)).
                      name (cats ts' ! j) \<noteq> hashFragment (hash p)))
          \<and> ((\<forall>c\<in>set (cats ts'). name c \<noteq> hashFragment (hash p)) \<longrightarrow>
                initialIndex (cats ts') (hash p) = 0)"
    apply (rule exI [of _ ts'])
    unfolding c k_def [symmetric]
    using w cs a h f kb i1 i2 by blast
  from first q hc show ?thesis by blast
qed

subsection \<open>The rendered tab set is kept\<close>

lemma isElement_selectTabs: "list_all isElement tabs \<Longrightarrow> list_all isElement (selectTabs i tabs)"
  by (simp add: list_all_length length_selectTabs nth_selectTabs selected_tab_isElement)

lemma isElement_showPanel: "list_all isElement pns \<Longrightarrow> list_all isElement (showPanel i pns)"
  by (simp add: list_all_length showPanel_def nth_enumerate_eq isElement_set_hidden)

lemma isElement_enablePanelMasonry:
  "list_all isElement pns \<Longrightarrow> list_all isElement (fst (enablePanelMasonry i pns p))"
  by (auto simp: enablePanelMasonry_def elementAt_def list_all_length nth_list_update
      isElement_set_childNodes split: option.splits prod.splits)

lemma markActive_rendered: "rendered (fst st) \<Longrightarrow> rendered (fst (markActive v i st))"
  by (cases v)
     (simp_all add: rendered_def markActive_def Let_def length_selectTabs length_showPanel
       enablePanelMasonry_length isElement_selectTabs isElement_showPanel
       isElement_enablePanelMasonry)

lemma activate_rendered: "rendered (fst st) \<Longrightarrow> rendered (fst (snd (activate v i h st)))"
  by (simp add: activate_tabset markActive_rendered)

lemma renderPortfolio_tabset:
  assumes root: "elements p rootId = Some kids"
    and load: "loadManifest p = (Inr m, p1)"
    and ne: "resolveCategories v (objectProto p) m \<noteq> []"
  shows "\<exists>ts. snd (renderPortfolio v rootId p) = Some ts \<and> rendered ts
            \<and> cats ts = resolveCategories v (objectProto p) m"
proof -
  from renderPortfolio_mounts [OF root load refl ne] obtain pns where
    pns: "length pns = length (resolveCategories v (objectProto p) m)" "list_all isElement pns"
    and rp: "snd (renderPortfolio v rootId p) =
       Some (fst (snd (activate v (initialIndex (resolveCategories v (objectProto p) m) (hash p))
          False (mount (resolveCategories v (objectProto p) m) pns rootId p1))))"
    by force
  have "rendered (fst (mount (resolveCategories v (objectProto p) m) pns rootId p1))"
    by (rule rendered_mount) (simp_all add: pns)
  from activate_rendered [OF this] rp show ?thesis
    by (simp add: activate_tabset markActive_cats mount_def)
qed

subsection \<open>The example page\<close>

lemma example_root: "elements examplePage ''portfolio'' = Some [TextNode ''Portfolio'']"
  by (simp add: examplePage_def)

lemma example_load:
  "loadManifest examplePage = (Inr exampleManifest, examplePage\<lparr>fetches := Suc 0\<rparr>)"
  by (simp add: loadManifest_def examplePage_def)

lemma example_plain_categories:
  "resolveCategories Plain (objectProto examplePage) exampleManifest =
     [\<lparr>name = ''weddings'', title = None, images = Some [''c.jpg'']\<rparr>,
      \<lparr>name = ''food'', title = Some ''Street food'', images = Some [''a.jpg'', ''b.jpg'']\<rparr>]"
  by (simp add: resolveCategories_def nonEmptyCategories_def exampleManifest_def
      exampleCategories_def hasImages_def)

lemma example_tabset:
  "snd (renderPortfolio Plain ''portfolio'' examplePage) = Some (exampleTabset Plain)
   \<and> rendered (exampleTabset Plain)
   \<and> cats (exampleTabset Plain) = resolveCategories Plain (objectProto examplePage) exampleManifest"
  using renderPortfolio_tabset [OF example_root example_load, of Plain]
  by (auto simp: exampleTabset_def example_plain_categories)

theorem activate_selects_exactly_one_witness:
  "rendered (exampleTabset Plain) \<and> (0::int) \<le> 1 \<and> 1 < int (length (tabEls (exampleTabset Plain)))
   \<and> map (getAttribute ''aria-selected'')
        (tabEls (fst (snd (activate Plain 1 True (exampleTabset Plain, examplePage))))) =
       [Some ''false'', Some ''true'']
   \<and> map tabIndex (tabEls (fst (snd (activate Plain 1 True (exampleTabset Plain, examplePage))))) =
       [Some (- 1), Some 0]
   \<and> map hidden (panelEls (fst (snd (activate Plain 1 True (exampleTabset Plain, examplePage))))) =
       [True, False]"
proof -
  have r: "rendered (exampleTabset Plain)"
    using example_tabset by simp
  have n: "length (tabEls (exampleTabset Plain)) = 2"
    using example_tabset by (simp add: rendered_def example_plain_categories)
  have i: "(1::int) < int (length (tabEls (exampleTabset Plain)))"
    by (simp add: n)
  have a: "activate Plain 1 True (exampleTabset Plain, examplePage) =
           (fst (activate Plain 1 True (exampleTabset Plain, examplePage)),
            fst (snd (activate Plain 1 True (exampleTabset Plain, examplePage))),
            snd (snd (activate Plain 1 True (exampleTabset Plain, examplePage))))"
    by simp
  have z: "(0::int) \<le> 1" by simp
  from activate_selects_exactly_one [OF r z i a] r i show ?thesis
    by (simp add: n numeral_2_eq_2)
qed

theorem initial_activation_follows_fragment_witness:
  "elements examplePage ''portfolio'' = Some [TextNode ''Portfolio'']
   \<and> loadManifest examplePage = (Inr exampleManifest, examplePage\<lparr>fetches := Suc 0\<rparr>)
   \<and> resolveCategories Plain (objectProto examplePage) exampleManifest \<noteq> []
   \<and> hashFragment (hash examplePage) = ''food''
   \<and> map (getAttribute ''aria-selected'') (tabEls (exampleTabset Plain)) =
       [Some ''false'', Some ''true'']
   \<and> map hidden (panelEls (exampleTabset Plain)) = [True, False]
   \<and> activeElement (fst (renderPortfolio Plain ''portfolio'' examplePage)) = Some ''tab-food''
   \<and> hash (fst (renderPortfolio Plain ''portfolio'' examplePage)) = ''#food''
   \<and> replaced (fst (renderPortfolio Plain ''portfolio'' examplePage)) = []"
proof -
  have ne: "resolveCategories Plain (objectProto examplePage) exampleManifest \<noteq> []"
    by (simp add: example_plain_categories)
  have k: "initialIndex (resolveCategories Plain (objectProto examplePage) exampleManifest)
             (hash examplePage) = 1"
    by (simp only: example_plain_categories)
       (simp add: initialIndex_def hashFragment_def examplePage_def)
  have f: "hashFragment (hash examplePage) = ''food''"
    by (simp add: hashFragment_def examplePage_def)
  have e: "renderPortfolio Plain ''portfolio'' examplePage =
           (fst (renderPortfolio Plain ''portfolio'' examplePage),
            snd (renderPortfolio Plain ''portfolio'' examplePage))"
    by simp
  have s: "snd (renderPortfolio Plain ''portfolio'' examplePage) = Some (exampleTabset Plain)"
    using example_tabset by simp
  from initial_activation_follows_fragment [OF example_root example_load ne e]
  obtain ts' where t: "snd (renderPortfolio Plain ''portfolio'' examplePage) = Some ts'"
    and c: "cats ts' = resolveCategories Plain (objectProto examplePage) exampleManifest"
    and a: "map (getAttribute ''aria-selected'') (tabEls ts') =
              map (\<lambda>j. Some (if int j = initialIndex (cats ts') (hash examplePage)
                               then ''true'' else ''false'')) [0..<length (cats ts')]"
    and h: "map hidden (panelEls ts') =
              map (\<lambda>j. int j \<noteq> initialIndex (cats ts') (hash examplePage)) [0..<length (cats ts')]"
    and act: "activeElement (fst (renderPortfolio Plain ''portfolio'' examplePage)) =
              Some (''tab-'' @ name (cats ts' ! nat (initialIndex (cats ts') (hash examplePage))))"
    and q: "hash (fst (renderPortfolio Plain ''portfolio'' examplePage)) = hash examplePage"
      "replaced (fst (renderPortfolio Plain ''portfolio'' examplePage)) = replaced examplePage"
    by blast
  have ts': "ts' = exampleTabset Plain" using t s by simp
  have k': "initialIndex (cats ts') (hash examplePage) = 1" using k c by simp
  have l: "length (cats ts') = Suc (Suc 0)" by (simp add: c example_plain_categories)
  have n: "cats ts' ! Suc 0 =
           \<lparr>name = ''food'', title = Some ''Street food'', images = Some [''a.jpg'', ''b.jpg'']\<rparr>"
    by (simp add: c example_plain_categories)
  have a': "map (getAttribute ''aria-selected'') (tabEls ts') = [Some ''false'', Some ''true'']"
    using a by (simp add: k' l)
  have h': "map hidden (panelEls ts') = [True, False]"
    using h by (simp add: k' l)
  have act': "activeElement (fst (renderPortfolio Plain ''portfolio'' examplePage)) = Some ''tab-food''"
    using act by (simp add: k' n)
  have "map (getAttribute ''aria-selected'') (tabEls (exampleTabset Plain)) =
          [Some ''false'', Some ''true'']
        \<and> map hidden (panelEls (exampleTabset Plain)) = [True, False]
        \<and> activeElement (fst (renderPortfolio Plain ''portfolio'' examplePage)) = Some ''tab-food''
        \<and> hash (fst (renderPortfolio Plain ''portfolio'' examplePage)) = hash examplePage
        \<and> replaced (fst (renderPortfolio Plain ''portfolio'' examplePage)) = replaced examplePage"
    using a' h' act' q by (simp add: ts')
  moreover have "hash examplePage = ''#food''" "replaced examplePage = []"
    by (simp_all add: examplePage_def)
  ultimately show ?thesis
    using ne f by (simp add: example_root example_load)
qed

subsection \<open>The keyboard\<close>

lemma jsRem_nonneg: "0 \<le> a \<Longrightarrow> 0 < n \<Longrightarrow> jsRem a n = a mod n"
  by (cases "a = 0") (simp_all add: jsRem_def)

text \<open>What the \<^verbatim>\<open>keydown\<close> listener calls for each of the four keys.\<close>

lemma keydown_calls_activate:
  assumes "i < length (tabEls ts)"
  shows "keydown v i ''ArrowRight'' (ts, p) =
           (True, activate v ((int i + 1) mod int (length (tabEls ts))) True (ts, p))
       \<and> keydown v i ''ArrowLeft'' (ts, p) =
           (True, activate v ((int i - 1 + int (length (tabEls ts))) mod int (length (tabEls ts)))
                    True (ts, p))
       \<and> keydown v i ''Home'' (ts, p) = (True, activate v 0 True (ts, p))
       \<and> keydown v i ''End'' (ts, p) =
           (True, activate v (int (length (tabEls ts)) - 1) True (ts, p))
       \<and> 0 \<le> (int i + 1) mod int (length (tabEls ts))
       \<and> (int i + 1) mod int (length (tabEls ts)) < int (length (tabEls ts))
       \<and> 0 \<le> (int i - 1 + int (length (tabEls ts))) mod int (length (tabEls ts))
       \<and> (int i - 1 + int (length (tabEls ts))) mod int (length (tabEls ts))
            < int (length (tabEls ts))
       \<and> (i = length (tabEls ts) - 1 \<longrightarrow>
            keydown v i ''ArrowRight'' (ts, p) = (True, activate v 0 True (ts, p)))
       \<and> (i = 0 \<longrightarrow>
            keydown v i ''ArrowLeft'' (ts, p) =
              (True, activate v (int (length (tabEls ts)) - 1) True (ts, p)))"
proof -
  define n where "n = int (length (tabEls ts))"
  have n: "0 < n" "int i < n" using assms by (auto simp: n_def)
  have r: "jsRem (int i + 1) n = (int i + 1) mod n"
    using n by (intro jsRem_nonneg) simp_all
  have l: "jsRem (int i - 1 + n) n = (int i - 1 + n) mod n"
    using n by (intro jsRem_nonneg) simp_all
  have kr: "keydown v i ''ArrowRight'' (ts, p) = (True, activate v ((int i + 1) mod n) True (ts, p))"
    using assms by (simp add: keydown_def Let_def r [unfolded n_def] n_def)
  have kl: "keydown v i ''ArrowLeft'' (ts, p) =
              (True, activate v ((int i - 1 + n) mod n) True (ts, p))"
    using assms by (simp add: keydown_def Let_def l [unfolded n_def] n_def)
  have kh: "keydown v i ''Home'' (ts, p) = (True, activate v 0 True (ts, p))"
    using assms by (simp add: keydown_def Let_def)
  have ke: "keydown v i ''End'' (ts, p) = (True, activate v (n - 1) True (ts, p))"
    using assms by (simp add: keydown_def Let_def n_def)
  have b: "0 \<le> (int i + 1) mod n" "(int i + 1) mod n < n"
    "0 \<le> (int i - 1 + n) mod n" "(int i - 1 + n) mod n < n"
    using n by simp_all
  have last: "i = length (tabEls ts) - 1 \<longrightarrow> (int i + 1) mod n = 0"
    using assms by (auto simp: n_def)
  have first: "i = 0 \<longrightarrow> (int i - 1 + n) mod n = n - 1"
    using n by (auto simp: zmod_minus1)
  have kr0: "i = length (tabEls ts) - 1 \<longrightarrow>
             keydown v i ''ArrowRight'' (ts, p) = (True, activate v 0 True (ts, p))"
    using kr last by auto
  have kl0: "i = 0 \<longrightarrow>
             keydown v i ''ArrowLeft'' (ts, p) = (True, activate v (n - 1) True (ts, p))"
    using kl first by auto
  show ?thesis
    unfolding n_def [symmetric] using kr kl kh ke b kr0 kl0 by blast
qed

lemma activate_hash:
  assumes "0 \<le> i" "i < int (length (cats (fst st)))"
  shows "hash (snd (snd (activate v i True st))) =
           (if name (cats (fst st) ! nat i) = [] then []
            else CHR ''#'' # name (cats (fst st) ! nat i))"
  using assms
  by (simp add: activate_def Let_def elementAt_def markActive_cats writeHash_def
      split: option.splits)

text \<open>
  Claim C6. On a rendered tab set of \<open>N\<close> tabs, a \<^verbatim>\<open>keydown\<close> event on the tab at index \<open>i\<close>
  with one of the four keys calls \<^verbatim>\<open>preventDefault\<close> and activates the tab at \<open>k\<close>, where
  \<open>k\<close> is \<open>(i + 1) mod N\<close> for \<^verbatim>\<open>ArrowRight\<close>, \<open>(i - 1 + N) mod N\<close> for \<^verbatim>\<open>ArrowLeft\<close>, 0 for
  \<^verbatim>\<open>Home\<close> and \<open>N - 1\<close> for \<^verbatim>\<open>End\<close>. The activation does not throw; afterwards the tab at
  \<open>k\<close> and no other is selected and is the tab stop, the panel at \<open>k\<close> and no other is
  visible, the tab at \<open>k\<close> has the focus and the fragment of the URL is the name of the
  category at \<open>k\<close>. \<^verbatim>\<open>ArrowRight\<close> on the last tab gives \<open>k = 0\<close>, and \<^verbatim>\<open>ArrowLeft\<close> on the
  first tab gives \<open>k = N - 1\<close>.
\<close>

theorem keydown_moves_activation:
  assumes r: "rendered ts"
    and i: "i < length (tabEls ts)"
    and key: "key = ''ArrowRight'' \<and> k = (int i + 1) mod int (length (tabEls ts))
            \<or> key = ''ArrowLeft''
              \<and> k = (int i - 1 + int (length (tabEls ts))) mod int (length (tabEls ts))
            \<or> key = ''Home'' \<and> k = 0
            \<or> key = ''End'' \<and> k = int (length (tabEls ts)) - 1"
    and ev: "keydown v i key (ts, p) = (prevented, err, ts', p')"
  shows "prevented \<and> err = None
       \<and> (err, ts', p') = activate v k True (ts, p)
       \<and> 0 \<le> k \<and> k < int (length (tabEls ts))
       \<and> map (getAttribute ''aria-selected'') (tabEls ts') =
           map (\<lambda>j. Some (if int j = k then ''true'' else ''false'')) [0..<length (tabEls ts)]
       \<and> map tabIndex (tabEls ts') =
           map (\<lambda>j. Some (if int j = k then 0 else - 1)) [0..<length (tabEls ts)]
       \<and> map hidden (panelEls ts') = map (\<lambda>j. int j \<noteq> k) [0..<length (tabEls ts)]
       \<and> length (filter (\<lambda>pn. \<not> hidden pn) (panelEls ts')) = 1
       \<and> activeElement p' = getAttribute ''id'' (tabEls ts' ! nat k)
       \<and> hash p' = (if name (cats ts ! nat k) = [] then [] else CHR ''#'' # name (cats ts ! nat k))
       \<and> (key = ''ArrowRight'' \<and> i = length (tabEls ts) - 1 \<longrightarrow> k = 0)
       \<and> (key = ''ArrowLeft'' \<and> i = 0 \<longrightarrow> k = int (length (tabEls ts)) - 1)"
proof -
  define n where "n = int (length (tabEls ts))"
  have n: "0 < n" "int i < n" using i by (auto simp: n_def)
  from r have len: "length (tabEls ts) = length (cats ts)" "length (panelEls ts) = length (tabEls ts)"
    and els: "list_all isElement (tabEls ts)" "list_all isElement (panelEls ts)"
    by (simp_all add: rendered_def)
  note calls = keydown_calls_activate [OF i, of v p]
  have call: "keydown v i key (ts, p) = (True, activate v k True (ts, p))"
    using key calls by auto
  have kb: "0 \<le> k" "k < n"
    using key n unfolding n_def [symmetric] by auto
  have wrapR: "key = ''ArrowRight'' \<and> i = length (tabEls ts) - 1 \<longrightarrow> k = 0"
    using key i by (auto simp: n_def)
  have wrapL: "key = ''ArrowLeft'' \<and> i = 0 \<longrightarrow> k = n - 1"
    using key n unfolding n_def [symmetric] by (auto simp: zmod_minus1)
  have pv: "prevented" and res: "(err, ts', p') = activate v k True (ts, p)"
    using ev call by simp_all
  have e: "err = fst (activate v k True (ts, p))"
    and t: "ts' = fst (snd (activate v k True (ts, p)))"
    and q: "p' = snd (snd (activate v k True (ts, p)))"
    using res by (metis fst_conv snd_conv)+
  have kb': "k < int (length (tabEls (fst (ts, p))))" "k < int (length (cats (fst (ts, p))))"
    using kb len by (simp_all add: n_def)
  have 1: "err = None"
    using e activate_no_error [of k "(ts, p)" v True] kb(1) kb'(1) len(1) by simp
  have 2: "map (getAttribute ''aria-selected'') (tabEls ts') =
           map (\<lambda>j. Some (if int j = k then ''true'' else ''false'')) [0..<length (tabEls ts)]"
    by (simp add: t activate_tabset markActive_tabEls selectTabs_aria [OF els(1)])
  have 3: "map tabIndex (tabEls ts') =
           map (\<lambda>j. Some (if int j = k then 0 else - 1)) [0..<length (tabEls ts)]"
    by (simp add: t activate_tabset markActive_tabEls selectTabs_tabIndex [OF els(1)])
  have 4: "map hidden (panelEls ts') = map (\<lambda>j. int j \<noteq> k) [0..<length (tabEls ts)]"
    by (simp add: t activate_tabset markActive_hidden showPanel_hidden [OF els(2)] len(2))
  have 5: "length (filter (\<lambda>pn. \<not> hidden pn) (panelEls ts')) = 1"
    using one_visible [OF 4 kb(1)] kb(2) by (simp add: n_def)
  have 6: "activeElement p' = getAttribute ''id'' (tabEls ts' ! nat k)"
    using activate_focus [of k "(ts, p)" v True] kb(1) kb'(1) len(1)
    by (simp add: q t activate_tabset markActive_tabEls)
  have 7: "hash p' = (if name (cats ts ! nat k) = [] then []
                      else CHR ''#'' # name (cats ts ! nat k))"
    using activate_hash [of k "(ts, p)" v] kb(1) kb'(2) by (simp add: q)
  show ?thesis
    using pv 1 res kb 2 3 4 5 6 7 wrapR wrapL unfolding n_def by blast
qed

theorem keydown_moves_activation_witness:
  "rendered (exampleTabset Plain) \<and> (1 :: nat) < length (tabEls (exampleTabset Plain))
   \<and> fst (keydown Plain 1 ''ArrowRight'' (exampleTabset Plain, examplePage))
   \<and> fst (snd (keydown Plain 1 ''ArrowRight'' (exampleTabset Plain, examplePage))) = None
   \<and> map hidden (panelEls (fst (snd (snd
        (keydown Plain 1 ''ArrowRight'' (exampleTabset Plain, examplePage)))))) = [False, True]
   \<and> map tabIndex (tabEls (fst (snd (snd
        (keydown Plain 1 ''ArrowRight'' (exampleTabset Plain, examplePage)))))) = [Some 0, Some (- 1)]
   \<and> hash (snd (snd (snd
        (keydown Plain 1 ''ArrowRight'' (exampleTabset Plain, examplePage))))) = ''#weddings''"
proof -
  have r: "rendered (exampleTabset Plain)"
    using example_tabset by simp
  have c: "cats (exampleTabset Plain) =
     [\<lparr>name = ''weddings'', title = None, images = Some [''c.jpg'']\<rparr>,
      \<lparr>name = ''food'', title = Some ''Street food'', images = Some [''a.jpg'', ''b.jpg'']\<rparr>]"
    using example_tabset by (simp add: example_plain_categories)
  have n: "length (tabEls (exampleTabset Plain)) = 2"
    using r by (simp add: rendered_def c)
  have i: "(1 :: nat) < length (tabEls (exampleTabset Plain))"
    by (simp add: n)
  have key: "''ArrowRight'' = ''ArrowRight'' \<and> (0::int) = (int 1 + 1) mod int (length (tabEls (exampleTabset Plain)))
            \<or> ''ArrowRight'' = ''ArrowLeft''
              \<and> (0::int) = (int 1 - 1 + int (length (tabEls (exampleTabset Plain))))
                     mod int (length (tabEls (exampleTabset Plain)))
            \<or> ''ArrowRight'' = ''Home'' \<and> (0::int) = 0
            \<or> ''ArrowRight'' = ''End'' \<and> (0::int) = int (length (tabEls (exampleTabset Plain))) - 1"
    by (simp add: n)
  obtain pv err ts' p' where
    ev: "keydown Plain 1 ''ArrowRight'' (exampleTabset Plain, examplePage) = (pv, err, ts', p')"
    by (cases "keydown Plain 1 ''ArrowRight'' (exampleTabset Plain, examplePage)") auto
  from keydown_moves_activation [OF r i key ev]
  have "pv" "err = None"
    "map tabIndex (tabEls ts') = map (\<lambda>j. Some (if int j = 0 then 0 else - 1)) [0..<2]"
    "map hidden (panelEls ts') = map (\<lambda>j. int j \<noteq> 0) [0..<2]"
    "hash p' = (if name (cats (exampleTabset Plain) ! nat 0) = [] then []
                else CHR ''#'' # name (cats (exampleTabset Plain) ! nat 0))"
    unfolding n by blast+
  then show ?thesis
    using r i by (simp add: ev [unfolded One_nat_def] c numeral_2_eq_2)
qed

subsection \<open>Nothing to show, and no root\<close>

lemma prioritizeCategories_empty:
  "nonEmptyCategories cso = [] \<Longrightarrow> prioritizeCategories proto cso = []"
  using set_map_filter_byName [of "[]" CATEGORY_ORDER]
  by (simp add: prioritizeCategories_def Let_def)

lemma resolveCategories_empty:
  "nonEmptyCategories (categories m) = [] \<Longrightarrow> resolveCategories v proto m = []"
  by (cases v) (simp_all add: resolveCategories_def prioritizeCategories_empty)

lemma statusMessage_eq:
  "statusMessage msg = Element ''p'' ''muted'' [] None False (if msg = [] then [] else [TextNode msg])"
  by (simp add: statusMessage_def el_def createElement_def)

text \<open>
  Claim C5. When the root exists and the manifest loads, and every category of the manifest
  has an empty (or no) image list, \<^verbatim>\<open>renderPortfolio\<close> appends to the root exactly one
  node, the paragraph of class \<^verbatim>\<open>muted\<close> with the text \<^verbatim>\<open>No images found.\<close>, and builds no
  tab set: no tab and no panel is created or appended. Nothing else on the page changes
  but the count of requests sent.
\<close>

theorem portfolio_without_images:
  assumes root: "elements p rootId = Some kids"
    and load: "loadManifest p = (Inr m, p1)"
    and empty: "\<forall>c\<in>set (case categories m of None \<Rightarrow> [] | Some cs \<Rightarrow> cs).
                  images c = None \<or> images c = Some []"
  shows "renderPortfolio v rootId p =
           (p\<lparr>fetches := Suc (fetches p),
              elements := (elements p)(rootId \<mapsto>
                 kids @ [Element ''p'' ''muted'' [] None False [TextNode ''No images found.'']])\<rparr>,
            None)"
proof -
  have "nonEmptyCategories (categories m) = []"
    using empty by (auto simp: nonEmptyCategories_def hasImages_def filter_empty_conv
        split: option.splits)
  then have cs: "resolveCategories v (objectProto p1) m = []"
    by (rule resolveCategories_empty)
  have nf: "protocol p \<noteq> ''file:''"
    using load by (auto simp: loadManifest_def)
  have p1: "p1 = p\<lparr>fetches := Suc (fetches p)\<rparr>"
    using load loadManifest_page [of p] nf by simp
  have "portfolioBody v rootId p =
          (None, appendTo rootId (statusMessage ''No images found.'') p1, None)"
    by (simp add: portfolioBody_def load cs)
  then show ?thesis
    using root by (simp add: renderPortfolio_def appendTo_def p1 statusMessage_eq)
qed

theorem portfolio_without_images_witness:
  "elements examplePage ''portfolio'' = Some [TextNode ''Portfolio'']
   \<and> renderPortfolio Masonry ''portfolio''
        (examplePage\<lparr>server := Response True
           (Some \<lparr>basePath = ''img'',
                  categories = Some [\<lparr>name = ''drafts'', title = None, images = Some []\<rparr>]\<rparr>)\<rparr>) =
       (examplePage\<lparr>server := Response True
           (Some \<lparr>basePath = ''img'',
                  categories = Some [\<lparr>name = ''drafts'', title = None, images = Some []\<rparr>]\<rparr>),
          fetches := Suc 0,
          elements := [''portfolio'' \<mapsto>
             [TextNode ''Portfolio'',
              Element ''p'' ''muted'' [] None False [TextNode ''No images found.'']]]\<rparr>,
        None)"
proof -
  let ?m = "\<lparr>basePath = ''img'',
             categories = Some [\<lparr>name = ''drafts'', title = None, images = Some []\<rparr>]\<rparr>"
  let ?p = "examplePage\<lparr>server := Response True (Some ?m)\<rparr>"
  have root: "elements ?p ''portfolio'' = Some [TextNode ''Portfolio'']"
    by (simp add: examplePage_def)
  have load: "loadManifest ?p = (Inr ?m, ?p\<lparr>fetches := Suc 0\<rparr>)"
    by (simp add: loadManifest_def examplePage_def)
  have empty: "\<forall>c\<in>set (case categories ?m of None \<Rightarrow> [] | Some cs \<Rightarrow> cs).
                 images c = None \<or> images c = Some []"
    by simp
  from portfolio_without_images [OF root load empty, of Masonry] show ?thesis
    by (simp add: examplePage_def)
qed

text \<open>
  Claim C10. When no element has the id \<open>rootId\<close>, \<^verbatim>\<open>renderPortfolio(rootId)\<close> and
  \<^verbatim>\<open>renderFeatured(rootId, count)\<close> return with the page exactly as it was: no request
  for the manifest is sent and no element is changed or added. Neither function has a
  statement that can throw outside its \<^verbatim>\<open>try\<close> block, so the model's results have no
  error.
\<close>

theorem missing_root_does_nothing:
  assumes "elements p rootId = None"
  shows "renderPortfolio v rootId p = (p, None) \<and> renderFeatured v rootId count p = p"
  using assms by (simp add: renderPortfolio_def renderFeatured_def)

theorem missing_root_does_nothing_witness:
  "elements examplePage ''nowhere'' = None
   \<and> renderPortfolio Masonry ''nowhere'' examplePage = (examplePage, None)
   \<and> renderFeatured Masonry ''nowhere'' (Some 3) examplePage = examplePage
   \<and> fetches (renderFeatured Masonry ''nowhere'' (Some 3) examplePage) = 0"
proof -
  have n: "elements examplePage ''nowhere'' = None"
    by (simp add: examplePage_def)
  from missing_root_does_nothing [OF n, of Masonry "Some 3"] n show ?thesis
    by (simp add: examplePage_def)
qed

subsection \<open>Failure messages\<close>

lemma fold_appendTo_elements:
  "elements p r = Some kids \<Longrightarrow>
   elements (fold (\<lambda>(src, alt) q. appendTo r (f src alt) q) xs p) =
     (elements p)(r \<mapsto> kids @ map (\<lambda>(src, alt). f src alt) xs)"
proof (induction xs arbitrary: p kids)
  case Nil
  then show ?case by (simp add: fun_upd_idem)
next
  case (Cons x xs)
  obtain src alt where x: "x = (src, alt)" by (cases x)
  have "elements (appendTo r (f src alt) p) r = Some (kids @ [f src alt])"
    using Cons.prems by (simp add: appendTo_def)
  from Cons.IH [OF this] show ?case
    by (auto simp: x appendTo_elements [OF Cons.prems])
qed

lemma featuredBody_failure:
  assumes "fst (featuredBody v rootId count p) = Some e"
  shows "snd (featuredBody v rootId count p) = snd (loadManifest p)
       \<and> (fst (loadManifest p) = Inl e
           \<or> (e = TypeError \<and> (\<exists>m. fst (loadManifest p) = Inr m \<and> categories m = None)))"
  using assms
  by (auto simp: featuredBody_def Let_def split: prod.splits sum.splits option.splits)

lemma loadManifest_error_kind:
  "fst (loadManifest p) = Inl e \<Longrightarrow> (protocol p = ''file:'') = (e = LocalFileProtocol)"
  by (auto simp: loadManifest_def Let_def split: fetch_outcome.splits option.splits if_splits)

lemma loadManifest_ok_not_file: "fst (loadManifest p) = Inr m \<Longrightarrow> protocol p \<noteq> ''file:''"
  by (auto simp: loadManifest_def)

text \<open>
  Claim C4, as amended. \<^verbatim>\<open>renderFeatured\<close> has the two-way policy of \<^verbatim>\<open>renderPortfolio\<close>
  with texts of its own. When its \<^verbatim>\<open>try\<close> block fails, it appends one paragraph of class
  \<^verbatim>\<open>muted\<close> to the root: \<^verbatim>\<open>Featured images need a local server. Run `make serve` and reload.\<close>
  when the page's protocol is \<^verbatim>\<open>file:\<close>, which is the case exactly when the failure is the
  local-file restriction, and \<^verbatim>\<open>No featured images found.\<close> otherwise. \<^verbatim>\<open>renderPortfolio\<close>,
  when the manifest fails to load, appends \<^verbatim>\<open>Galleries need a local server. Run `make serve`
  and reload.\<close> or \<^verbatim>\<open>No images found.\<close> by the same test.
\<close>

theorem featured_failure_message:
  assumes root: "elements p rootId = Some kids"
    and fail: "fst (featuredBody v rootId count p) = Some e"
  shows "elements (renderFeatured v rootId count p) =
           (elements p)(rootId \<mapsto> kids @
              [statusMessage
                 (if protocol p = ''file:''
                  then ''Featured images need a local server. Run `make serve` and reload.''
                  else ''No featured images found.'')])
       \<and> ((protocol p = ''file:'') = (e = LocalFileProtocol))
       \<and> (\<forall>e'. fst (loadManifest p) = Inl e' \<longrightarrow>
             elements (fst (renderPortfolio v rootId p)) =
               (elements p)(rootId \<mapsto> kids @
                  [statusMessage
                     (if protocol p = ''file:''
                      then ''Galleries need a local server. Run `make serve` and reload.''
                      else ''No images found.'')]))"
proof -
  from featuredBody_failure [OF fail]
  have s: "snd (featuredBody v rootId count p) = snd (loadManifest p)"
    and k: "fst (loadManifest p) = Inl e
            \<or> (e = TypeError \<and> (\<exists>m. fst (loadManifest p) = Inr m \<and> categories m = None))"
    by simp_all
  have b: "featuredBody v rootId count p = (Some e, snd (loadManifest p))"
    using fail s by (cases "featuredBody v rootId count p") simp
  have 1: "elements (renderFeatured v rootId count p) =
           (elements p)(rootId \<mapsto> kids @
              [statusMessage
                 (if protocol p = ''file:''
                  then ''Featured images need a local server. Run `make serve` and reload.''
                  else ''No featured images found.'')])"
    using root
    by (simp add: renderFeatured_def b featuredFailure_def appendTo_def loadManifest_fields)
  have 2: "(protocol p = ''file:'') = (e = LocalFileProtocol)"
    using k loadManifest_error_kind [of p e] loadManifest_ok_not_file [of p] by auto
  have 3: "elements (fst (renderPortfolio v rootId p)) =
               (elements p)(rootId \<mapsto> kids @
                  [statusMessage
                     (if protocol p = ''file:''
                      then ''Galleries need a local server. Run `make serve` and reload.''
                      else ''No images found.'')])"
    if l: "fst (loadManifest p) = Inl e'" for e'
  proof -
    obtain p1 where p1: "loadManifest p = (Inl e', p1)"
      using l by (cases "loadManifest p") simp
    have "portfolioBody v rootId p = (Some e', p1, None)"
      by (simp add: portfolioBody_def p1)
    moreover have "p1 = snd (loadManifest p)"
      by (simp add: p1)
    ultimately have "portfolioBody v rootId p = (Some e', snd (loadManifest p), None)"
      by simp
    then show ?thesis
      using root
      by (simp add: renderPortfolio_def portfolioFailure_def appendTo_def loadManifest_fields)
  qed
  from 1 2 3 show ?thesis by blast
qed

theorem featured_failure_message_witness:
  "elements (examplePage\<lparr>server := Rejected\<rparr>) ''portfolio'' = Some [TextNode ''Portfolio'']
   \<and> fst (featuredBody Plain ''portfolio'' None (examplePage\<lparr>server := Rejected\<rparr>)) =
       Some FetchRejected
   \<and> elements (renderFeatured Plain ''portfolio'' None (examplePage\<lparr>server := Rejected\<rparr>))
        ''portfolio'' =
       Some [TextNode ''Portfolio'', statusMessage ''No featured images found.'']"
proof -
  let ?p = "examplePage\<lparr>server := Rejected\<rparr>"
  have root: "elements ?p ''portfolio'' = Some [TextNode ''Portfolio'']"
    by (simp add: examplePage_def)
  have fail: "fst (featuredBody Plain ''portfolio'' None ?p) = Some FetchRejected"
    by (simp add: featuredBody_def loadManifest_def examplePage_def)
  have pr: "protocol ?p \<noteq> ''file:''"
    by (simp add: examplePage_def)
  from featured_failure_message [OF root fail] root fail pr show ?thesis
    by simp
qed

text \<open>
  Claim C4 as first stated fails: on a page served over \<^verbatim>\<open>https:\<close> whose request for the
  manifest is rejected, \<^verbatim>\<open>renderFeatured\<close> inserts \<^verbatim>\<open>No featured images found.\<close>, while
  \<^verbatim>\<open>renderPortfolio\<close> inserts \<^verbatim>\<open>No images found.\<close>
\<close>

theorem featured_message_differs:
  "elements (renderFeatured Plain ''portfolio'' None (examplePage\<lparr>server := Rejected\<rparr>))
     ''portfolio'' =
     Some [TextNode ''Portfolio'',
           Element ''p'' ''muted'' [] None False [TextNode ''No featured images found.'']]
   \<and> elements (fst (renderPortfolio Plain ''portfolio'' (examplePage\<lparr>server := Rejected\<rparr>)))
       ''portfolio'' =
     Some [TextNode ''Portfolio'',
           Element ''p'' ''muted'' [] None False [TextNode ''No images found.'']]"
  by (simp add: renderFeatured_def featuredBody_def renderPortfolio_def portfolioBody_def
      loadManifest_def examplePage_def featuredFailure_def portfolioFailure_def appendTo_def
      statusMessage_eq)

subsection \<open>The featured strip\<close>

lemma imgSources_append: "imgSources (xs @ ys) = imgSources xs @ imgSources ys"
  by (induction xs rule: imgSources.induct) simp_all

lemma imgSources_figureFor: "imgSources [figureFor v src alt] = [src]"
  by (cases v) (simp_all add: figureFor_def el_def createElement_def appendChild_def)

lemma imgSources_figures:
  "imgSources (map (\<lambda>(src, alt). figureFor v src alt) xs) = map fst xs"
proof (induction xs)
  case Nil
  then show ?case by simp
next
  case (Cons x xs)
  obtain src alt where x: "x = (src, alt)" by (cases x)
  have "imgSources ([figureFor v src alt] @ map (\<lambda>(src, alt). figureFor v src alt) xs) =
        src # map fst xs"
    unfolding imgSources_append by (simp add: imgSources_figureFor Cons.IH)
  then show ?case by (simp add: x)
qed

lemma slice0_nonneg:
  assumes "0 \<le> e"
  shows "slice0 xs e = take (min (nat e) (length xs)) xs"
proof -
  have "nat (min e (int (length xs))) = min (nat e) (length xs)"
    using assms by (cases "e \<le> int (length xs)") (auto simp: min_def nat_le_iff le_nat_iff)
  with assms show ?thesis
    by (simp add: slice0_def)
qed

lemma map_fst_flatten:
  "map fst (flatten m cs) =
     concat (map (\<lambda>cat. map (imageSrc m cat) (case images cat of None \<Rightarrow> [] | Some files \<Rightarrow> files)) cs)"
  by (induction cs) (simp_all add: flatten_def comp_def)

text \<open>
  Claim C8, as amended. When the root exists and the manifest loads with a category list,
  \<^verbatim>\<open>renderFeatured(rootId, count)\<close> with a count that is not negative, 6 when it is left
  out, appends to the root one figure for each of the first \<open>min count total\<close> entries of
  the flattened list, in that order, and nothing else. The flattened list goes through the
  categories in manifest order and through each category's files in order; the \<^verbatim>\<open>img\<close>
  of the figure for a file has the source \<^verbatim>\<open>basePath/name/file\<close>.
\<close>

theorem featured_takes_first_images:
  assumes root: "elements p rootId = Some kids"
    and load: "loadManifest p = (Inr m, p1)"
    and cats: "categories m = Some cs"
    and n: "n = (case count of None \<Rightarrow> 6 | Some c \<Rightarrow> c)"
    and nonneg: "0 \<le> n"
  shows "\<exists>figures.
           elements (renderFeatured v rootId count p) = (elements p)(rootId \<mapsto> kids @ figures)
         \<and> figures = map (\<lambda>(src, alt). figureFor v src alt)
                        (take (min (nat n) (length (flatten m cs))) (flatten m cs))
         \<and> length figures = min (nat n) (length (flatten m cs))
         \<and> imgSources figures =
             take (min (nat n) (length (flatten m cs)))
               (concat (map (\<lambda>cat. map (\<lambda>file. basePath m @ ''/'' @ name cat @ ''/'' @ file)
                                     (case images cat of None \<Rightarrow> [] | Some files \<Rightarrow> files)) cs))"
proof -
  define taken where "taken = take (min (nat n) (length (flatten m cs))) (flatten m cs)"
  define figures where "figures = map (\<lambda>(src, alt). figureFor v src alt) taken"
  have p1: "p1 = snd (loadManifest p)" using load by simp
  have r1: "elements p1 rootId = Some kids" and e1: "elements p1 = elements p"
    using root by (simp_all add: p1 loadManifest_fields)
  have s: "slice0 (flatten m cs) (case count of None \<Rightarrow> 6 | Some c \<Rightarrow> c) = taken"
    using nonneg unfolding n taken_def by (rule slice0_nonneg)
  have body: "featuredBody v rootId count p =
      (None, fold (\<lambda>(src, alt) q. appendTo rootId (figureFor v src alt) q) taken p1)"
    by (simp add: featuredBody_def load cats s Let_def)
  have 1: "elements (renderFeatured v rootId count p) = (elements p)(rootId \<mapsto> kids @ figures)"
    using fold_appendTo_elements [OF r1, of "figureFor v" taken]
    by (simp add: renderFeatured_def root body figures_def e1)
  have 2: "length figures = min (nat n) (length (flatten m cs))"
    by (simp add: figures_def taken_def)
  have 3: "imgSources figures =
             take (min (nat n) (length (flatten m cs)))
               (concat (map (\<lambda>cat. map (\<lambda>file. basePath m @ ''/'' @ name cat @ ''/'' @ file)
                                     (case images cat of None \<Rightarrow> [] | Some files \<Rightarrow> files)) cs))"
  proof -
    have "imgSources figures = take (min (nat n) (length (flatten m cs))) (map fst (flatten m cs))"
      by (simp add: figures_def imgSources_figures taken_def take_map)
    then show ?thesis
      unfolding map_fst_flatten imageSrc_def .
  qed
  from 1 2 3 show ?thesis
    unfolding figures_def taken_def by blast
qed

theorem featured_takes_first_images_witness:
  "elements examplePage ''portfolio'' = Some [TextNode ''Portfolio'']
   \<and> loadManifest examplePage = (Inr exampleManifest, examplePage\<lparr>fetches := Suc 0\<rparr>)
   \<and> categories exampleManifest = Some exampleCategories
   \<and> map_option imgSources (elements (renderFeatured Masonry ''portfolio'' (Some 2) examplePage)
        ''portfolio'') = Some [''img/weddings/c.jpg'', ''img/food/a.jpg'']"
proof -
  have c: "categories exampleManifest = Some exampleCategories"
    by (simp add: exampleManifest_def)
  have n: "(2::int) = (case Some 2 of None \<Rightarrow> 6 | Some c \<Rightarrow> c)" "(0::int) \<le> 2"
    by simp_all
  have f: "map fst (flatten exampleManifest exampleCategories) =
           [''img/weddings/c.jpg'', ''img/food/a.jpg'', ''img/food/b.jpg'']"
    by (simp add: map_fst_flatten exampleCategories_def exampleManifest_def imageSrc_def)
  then have l: "length (flatten exampleManifest exampleCategories) = 3"
    by (metis length_map length_Cons list.size(3) numeral_3_eq_3)
  from featured_takes_first_images [OF example_root example_load c n, of Masonry]
  obtain figures where
    e: "elements (renderFeatured Masonry ''portfolio'' (Some 2) examplePage) =
        (elements examplePage)(''portfolio'' \<mapsto> [TextNode ''Portfolio''] @ figures)"
    and i: "imgSources figures =
             take (min (nat 2) (length (flatten exampleManifest exampleCategories)))
               (concat (map (\<lambda>cat. map (\<lambda>file. basePath exampleManifest @ ''/'' @ name cat @ ''/'' @ file)
                                     (case images cat of None \<Rightarrow> [] | Some files \<Rightarrow> files))
                  exampleCategories))"
    by blast
  have "imgSources figures = [''img/weddings/c.jpg'', ''img/food/a.jpg'']"
    unfolding i l by (simp add: exampleCategories_def exampleManifest_def)
  then show ?thesis
    using e c by (simp add: example_root example_load imgSources_append)
qed

text \<open>
  Claim C8 as first stated fails for a negative count: \<^verbatim>\<open>slice(0, -1)\<close> drops the last
  entry, so with three images in the manifest \<^verbatim>\<open>renderFeatured(id, -1)\<close> renders the first
  two, where \<open>min (-1) 3\<close> entries would be none.
\<close>

theorem featured_negative_count:
  "length (flatten exampleManifest exampleCategories) = 3
   \<and> map_option imgSources
        (elements (renderFeatured Plain ''portfolio'' (Some (- 1)) examplePage) ''portfolio'') =
       Some [''img/weddings/c.jpg'', ''img/food/a.jpg'']"
proof -
  have f: "flatten exampleManifest exampleCategories =
           [(''img/weddings/c.jpg'', imageAlt (exampleCategories ! 0)),
            (''img/food/a.jpg'', imageAlt (exampleCategories ! 1)),
            (''img/food/b.jpg'', imageAlt (exampleCategories ! 1))]"
    by (simp add: flatten_def exampleCategories_def exampleManifest_def imageSrc_def)
  have s: "slice0 (flatten exampleManifest exampleCategories) (- 1) =
           [(''img/weddings/c.jpg'', imageAlt (exampleCategories ! 0)),
            (''img/food/a.jpg'', imageAlt (exampleCategories ! 1))]"
    unfolding f by (simp add: slice0_def)
  have c: "categories exampleManifest = Some exampleCategories"
    by (simp add: exampleManifest_def)
  have b: "featuredBody Plain ''portfolio'' (Some (- 1)) examplePage =
      (None, fold (\<lambda>(src, alt) q. appendTo ''portfolio'' (figureFor Plain src alt) q)
               [(''img/weddings/c.jpg'', imageAlt (exampleCategories ! 0)),
                (''img/food/a.jpg'', imageAlt (exampleCategories ! 1))]
               (examplePage\<lparr>fetches := Suc 0\<rparr>))"
    by (simp add: featuredBody_def example_load c s)
  have r: "elements (examplePage\<lparr>fetches := Suc 0\<rparr>) ''portfolio'' = Some [TextNode ''Portfolio'']"
    by (simp add: examplePage_def)
  have "elements (renderFeatured Plain ''portfolio'' (Some (- 1)) examplePage) ''portfolio'' =
        Some ([TextNode ''Portfolio''] @
              map (\<lambda>(src, alt). figureFor Plain src alt)
                [(''img/weddings/c.jpg'', imageAlt (exampleCategories ! 0)),
                 (''img/food/a.jpg'', imageAlt (exampleCategories ! 1))])"
    unfolding renderFeatured_def b
    by (simp add: example_root appendTo_def r)
  then have "map_option imgSources
        (elements (renderFeatured Plain ''portfolio'' (Some (- 1)) examplePage) ''portfolio'') =
       Some [''img/weddings/c.jpg'', ''img/food/a.jpg'']"
    using imgSources_figures [of Plain
        "[(''img/weddings/c.jpg'', imageAlt (exampleCategories ! 0)),
          (''img/food/a.jpg'', imageAlt (exampleCategories ! 1))]"]
    by simp
  with f show ?thesis by simp
qed

subsection \<open>The masonry layout\<close>

text \<open>The rounding at some values: a double is its own rounding, and the doubles nearest
  to 0.1, to 3.2 and to a third are the known ones.\<close>

lemma toDouble_examples:
  "toDouble 64 = Num 64"
  "toDouble (1 / 10) = Num (3602879701896397 / 2 ^ 55)"
  "toDouble (32 / 10) = Num (3602879701896397 / 2 ^ 50)"
  "toDouble (1 / 3) = Num (6004799503160661 / 2 ^ 54)"
  "toDouble (- (1 / 3)) = Num (- (6004799503160661 / 2 ^ 54))"
  by code_simp+

lemma spanFor_finite:
  assumes "toDouble (h + gap) = Num s" "toDouble (8 + gap) = Num d" "d \<noteq> 0"
    "toDouble (s / d) = Num q"
  shows "spanFor h gap = Span (Num (of_int (max 1 \<lceil>q\<rceil>)))"
  using assms by (simp add: spanFor_def MASONRY_ROW_HEIGHT_def)

lemma stretched_sums:
  "toDouble (64 + 3602879701896397 / 2 ^ 50) = Num (4728779608739021 / 2 ^ 46)"
  "toDouble (8 + 3602879701896397 / 2 ^ 50) = Num (3152519739159347 / 2 ^ 48)"
  "toDouble ((4728779608739021 / 2 ^ 46) / (3152519739159347 / 2 ^ 48)) =
     Num (6755399441055745 / 2 ^ 50)"
  by code_simp+

lemma stretched_span: "spanFor 64 (3602879701896397 / 2 ^ 50) = Span (Num 7)"
proof -
  have d: "(3152519739159347 / 2 ^ 48 :: rat) \<noteq> 0" by simp
  have c: "\<lceil>6755399441055745 / 2 ^ 50 :: rat\<rceil> = 7" by code_simp
  from spanFor_finite [OF stretched_sums(1,2) d stretched_sums(3)] show ?thesis
    by (simp only: c) simp
qed

text \<open>Another height and gap at which the rounded quotient lies just above an integer: 332
  pixels and the double nearest to 0.1.\<close>

lemma span_332:
  "spanFor 332 (3602879701896397 / 2 ^ 55) = Span (Num 42)
   \<and> \<lceil>(332 + 3602879701896397 / 2 ^ 55) / (8 + 3602879701896397 / 2 ^ 55) :: rat\<rceil> = 41"
  by code_simp

lemma layoutMasonry_idempotent:
  "layoutMasonry (layoutMasonry gal) = layoutMasonry gal"
proof (cases gal)
  case None
  then show ?thesis by (simp add: layoutMasonry_def)
next
  case (Some g)
  have i: "\<And>n gap. isGalleryItem (n\<lparr>gridRowEnd := spanFor (height n) gap\<rparr>) = isGalleryItem n"
    by (simp add: isGalleryItem_def)
  show ?thesis
    by (auto simp: Some layoutMasonry_def Let_def gapOf_def i comp_def
        intro!: map_cong [OF refl])
qed

text \<open>
  Claim C9, as amended. \<^verbatim>\<open>layoutMasonry\<close> always returns. On a gallery that is connected
  and has at least one layout box, every child whose class list holds \<^verbatim>\<open>gallery-item\<close>
  gets the row end \<^verbatim>\<open>span n\<close> with \<open>n = max 1 (ceiling q)\<close>, where \<open>q\<close> is the quotient
  \<open>(h + g) / (8 + g)\<close> as double-precision arithmetic gives it: the sum \<open>s\<close> of the height
  \<open>h\<close> of the child's bounding box and the gallery's row gap \<open>g\<close>, the sum \<open>d\<close> of 8 and
  \<open>g\<close>, and the quotient of \<open>s\<close> and \<open>d\<close>, each rounded to the nearest double (for sums and
  a quotient that are finite and a divisor that is not zero). Every other child is left
  as it is. On a gallery that is not connected or has no layout box nothing is changed:
  the gallery returned is the one given.
\<close>

theorem masonry_row_span:
  assumes "gap = (case parsedGap g of None \<Rightarrow> 0 | Some x \<Rightarrow> x)"
  shows "\<exists>g'. layoutMasonry (Some g) = Some g'
      \<and> (isConnected g \<and> clientRects g \<noteq> 0 \<longrightarrow>
           length (children g') = length (children g)
           \<and> (\<forall>k<length (children g).
                 (\<forall>cs s d q.
                    classList (children g ! k) = Some cs \<and> ''gallery-item'' \<in> set cs
                    \<and> toDouble (height (children g ! k) + gap) = Num s
                    \<and> toDouble (8 + gap) = Num d \<and> d \<noteq> 0
                    \<and> toDouble (s / d) = Num q \<longrightarrow>
                    children g' ! k =
                      (children g ! k)\<lparr>gridRowEnd := Span (Num (of_int (max 1 \<lceil>q\<rceil>)))\<rparr>)
                 \<and> (classList (children g ! k) = None
                      \<or> (\<exists>cs. classList (children g ! k) = Some cs \<and> ''gallery-item'' \<notin> set cs) \<longrightarrow>
                     children g' ! k = children g ! k)))
      \<and> (\<not> isConnected g \<or> clientRects g = 0 \<longrightarrow> g' = g)"
proof (cases "isConnected g \<and> clientRects g \<noteq> 0")
  case True
  have gap: "gapOf g = gap"
    by (simp add: gapOf_def assms)
  let ?g' = "g\<lparr>children :=
                 map (\<lambda>n. if isGalleryItem n then n\<lparr>gridRowEnd := spanFor (height n) gap\<rparr> else n)
                   (children g),
               galleryClasses :=
                 (if ''gallery-masonry-enabled'' \<in> set (galleryClasses g)
                  then galleryClasses g
                  else galleryClasses g @ [''gallery-masonry-enabled''])\<rparr>"
  have l: "layoutMasonry (Some g) = Some ?g'"
    using True by (simp add: layoutMasonry_def Let_def gap)
  have item: "children ?g' ! k =
                (children g ! k)\<lparr>gridRowEnd := Span (Num (of_int (max 1 \<lceil>q\<rceil>)))\<rparr>"
    if "k < length (children g)" "classList (children g ! k) = Some cs" "''gallery-item'' \<in> set cs"
      "toDouble (height (children g ! k) + gap) = Num s" "toDouble (8 + gap) = Num d" "d \<noteq> 0"
      "toDouble (s / d) = Num q" for k cs s d q
    using that(1,2,3) spanFor_finite [OF that(4,5,6,7)]
    by (simp add: isGalleryItem_def)
  have other: "children ?g' ! k = children g ! k"
    if "k < length (children g)"
      "classList (children g ! k) = None
       \<or> (\<exists>cs. classList (children g ! k) = Some cs \<and> ''gallery-item'' \<notin> set cs)" for k
    using that by (auto simp: isGalleryItem_def)
  have len: "length (children ?g') = length (children g)"
    by simp
  show ?thesis
    apply (rule exI [of _ ?g'])
    using l len item other True by blast
next
  case False
  then show ?thesis
    by (auto simp: layoutMasonry_def)
qed

lemma example_quotient:
  "toDouble 110 = Num 110" "toDouble 18 = Num 18"
  "toDouble (55 / 9) = Num (1720124857676231 / 2 ^ 48)"
  by code_simp+

theorem masonry_row_span_witness:
  "(10 :: rat) = (case parsedGap exampleGallery of None \<Rightarrow> 0 | Some x \<Rightarrow> x)
   \<and> isConnected exampleGallery \<and> clientRects exampleGallery \<noteq> 0
   \<and> map gridRowEnd (take 2 (children (the (layoutMasonry (Some exampleGallery))))) =
       [Span (Num 7), Unset]
   \<and> layoutMasonry (Some (exampleGallery\<lparr>isConnected := False\<rparr>)) =
       Some (exampleGallery\<lparr>isConnected := False\<rparr>)"
proof -
  have gap: "(10 :: rat) = (case parsedGap exampleGallery of None \<Rightarrow> 0 | Some x \<Rightarrow> x)"
    by (simp add: exampleGallery_def)
  have g: "isConnected exampleGallery" "clientRects exampleGallery \<noteq> 0"
    "length (children exampleGallery) = 3"
    by (simp_all add: exampleGallery_def)
  have c: "children exampleGallery ! 0 =
             \<lparr>classList = Some [''gallery-item''], height = 100, gridRowEnd = Unset\<rparr>"
    "children exampleGallery ! Suc 0 = \<lparr>classList = None, height = 40, gridRowEnd = Unset\<rparr>"
    by (simp_all add: exampleGallery_def)
  have q: "\<lceil>1720124857676231 / 281474976710656 :: rat\<rceil> = 7"
    by code_simp
  from masonry_row_span [OF gap] obtain g' where
    l: "layoutMasonry (Some exampleGallery) = Some g'"
    and r: "isConnected exampleGallery \<and> clientRects exampleGallery \<noteq> 0 \<longrightarrow>
           length (children g') = length (children exampleGallery)
           \<and> (\<forall>k<length (children exampleGallery).
                 (\<forall>cs s d q.
                    classList (children exampleGallery ! k) = Some cs \<and> ''gallery-item'' \<in> set cs
                    \<and> toDouble (height (children exampleGallery ! k) + 10) = Num s
                    \<and> toDouble (8 + 10) = Num d \<and> d \<noteq> 0
                    \<and> toDouble (s / d) = Num q \<longrightarrow>
                    children g' ! k =
                      (children exampleGallery ! k)\<lparr>gridRowEnd := Span (Num (of_int (max 1 \<lceil>q\<rceil>)))\<rparr>)
                 \<and> (classList (children exampleGallery ! k) = None
                      \<or> (\<exists>cs. classList (children exampleGallery ! k) = Some cs
                               \<and> ''gallery-item'' \<notin> set cs) \<longrightarrow>
                     children g' ! k = children exampleGallery ! k))"
    by (elim exE conjE) (rule that)
  from r g(1,2) have n: "length (children g') = length (children exampleGallery)"
    and A: "\<forall>k<length (children exampleGallery).
                 (\<forall>cs s d q.
                    classList (children exampleGallery ! k) = Some cs \<and> ''gallery-item'' \<in> set cs
                    \<and> toDouble (height (children exampleGallery ! k) + 10) = Num s
                    \<and> toDouble (8 + 10) = Num d \<and> d \<noteq> 0
                    \<and> toDouble (s / d) = Num q \<longrightarrow>
                    children g' ! k =
                      (children exampleGallery ! k)\<lparr>gridRowEnd := Span (Num (of_int (max 1 \<lceil>q\<rceil>)))\<rparr>)
                 \<and> (classList (children exampleGallery ! k) = None
                      \<or> (\<exists>cs. classList (children exampleGallery ! k) = Some cs
                               \<and> ''gallery-item'' \<notin> set cs) \<longrightarrow>
                     children g' ! k = children exampleGallery ! k)"
    by blast+
  note i0 = A [rule_format, of 0, THEN conjunct1, rule_format,
      of "[''gallery-item'']" 110 18 "1720124857676231 / 2 ^ 48"]
  note i1 = A [rule_format, of "Suc 0", THEN conjunct2, rule_format]
  have "children g' ! 0 = (children exampleGallery ! 0)\<lparr>gridRowEnd := Span (Num 7)\<rparr>"
    using i0 by (simp add: g c q example_quotient)
  moreover have "children g' ! Suc 0 = children exampleGallery ! Suc 0"
    using i1 by (simp add: g c)
  ultimately have "map gridRowEnd (take 2 (children g')) = [Span (Num 7), Unset]"
    using n by (intro nth_equalityI) (auto simp: g c less_Suc_eq numeral_2_eq_2)
  moreover have "layoutMasonry (Some (exampleGallery\<lparr>isConnected := False\<rparr>)) =
       Some (exampleGallery\<lparr>isConnected := False\<rparr>)"
    using masonry_row_span [of 10 "exampleGallery\<lparr>isConnected := False\<rparr>"]
    by (auto simp: exampleGallery_def)
  ultimately show ?thesis
    using gap g by (simp add: l)
qed

text \<open>
  Claim C9 as first stated, with the quotient of the formula in exact arithmetic, fails:
  for an item 64 pixels high and a row gap of 3.2 pixels the exact quotient of the two
  numbers is 6, and its ceiling is 6, but the quotient of the two rounded sums rounds to
  the double just above 6, and the script sets \<^verbatim>\<open>span 7\<close>.
\<close>

theorem exact_quotient_differs:
  "layoutMasonry (Some stretchedGallery) =
     Some (stretchedGallery
       \<lparr>children := [\<lparr>classList = Some [''gallery-item''], height = 64,
                       gridRowEnd = Span (Num 7)\<rparr>],
        galleryClasses := [''gallery'', ''gallery-masonry-enabled'']\<rparr>)
   \<and> max 1 \<lceil>(64 + 3602879701896397 / 2 ^ 50) / (8 + 3602879701896397 / 2 ^ 50) :: rat\<rceil> = 6"
proof -
  have "max 1 \<lceil>(64 + 3602879701896397 / 2 ^ 50) / (8 + 3602879701896397 / 2 ^ 50) :: rat\<rceil> = 6"
    by code_simp
  moreover have "spanFor 64 (3602879701896397 / 1125899906842624) = Span (Num 7)"
    using stretched_span by simp
  ultimately show ?thesis
    by (simp add: layoutMasonry_def stretchedGallery_def gapOf_def isGalleryItem_def)
qed

subsection \<open>The category resolver\<close>

lemma map_filter_byName_names:
  "map name (List.map_filter (byName valid) ks) = filter (\<lambda>k. k \<in> name ` set valid) ks"
proof (induction ks)
  case Nil
  then show ?case by (simp add: List.map_filter_simps)
next
  case (Cons k ks)
  show ?case
  proof (cases "byName valid k")
    case None
    then show ?thesis
      using Cons.IH by (simp add: List.map_filter_simps byName_None [symmetric])
  next
    case (Some c)
    then have "name c = k" "k \<in> name ` set valid"
      using byName_Some [OF Some] by auto
    then show ?thesis
      using Cons.IH Some by (simp add: List.map_filter_simps)
  qed
qed

lemma byName_distinct:
  assumes "distinct (map name valid)" "c \<in> set valid"
  shows "byName valid (name c) = Some c"
proof -
  have "byName valid (name c) \<noteq> None"
    using assms(2) by (simp add: byName_None)
  then obtain c' where c': "byName valid (name c) = Some c'" by auto
  from byName_Some [OF c'] have "c' \<in> set valid" "name c' = name c" by simp_all
  moreover have "inj_on name (set valid)"
    using assms(1) by (simp add: distinct_map)
  ultimately have "c' = c"
    using assms(2) by (auto dest: inj_onD)
  with c' show ?thesis by simp
qed

lemma set_map_filter_byName_distinct:
  assumes "distinct (map name valid)"
  shows "set (List.map_filter (byName valid) ks) = {c \<in> set valid. name c \<in> set ks}"
proof (intro set_eqI iffI)
  fix c assume "c \<in> set (List.map_filter (byName valid) ks)"
  then obtain k where "k \<in> set ks" "byName valid k = Some c"
    by (auto simp: List.map_filter_def)
  with byName_Some [of valid k c] show "c \<in> {c \<in> set valid. name c \<in> set ks}"
    by auto
next
  fix c assume "c \<in> {c \<in> set valid. name c \<in> set ks}"
  then have c: "c \<in> set valid" "name c \<in> set ks" by simp_all
  from byName_distinct [OF assms c(1)] c(2)
  show "c \<in> set (List.map_filter (byName valid) ks)"
    by (force simp: List.map_filter_def)
qed

lemma prioritized_nonempty:
  "(List.map_filter (byName valid) ks \<noteq> []) = (\<exists>c\<in>set valid. name c \<in> set ks)"
proof -
  have "(List.map_filter (byName valid) ks = []) =
        (map name (List.map_filter (byName valid) ks) = [])"
    by simp
  also have "\<dots> = (\<forall>k\<in>set ks. k \<notin> name ` set valid)"
    unfolding map_filter_byName_names by (simp add: filter_empty_conv)
  finally show ?thesis by auto
qed

text \<open>
  Claim C3, as amended. In the program with the priority list, when at least one
  non-empty category is named in \<^verbatim>\<open>CATEGORY_ORDER\<close>, the resolved list holds the non-empty
  categories named in \<^verbatim>\<open>CATEGORY_ORDER\<close> and no others, each with its title assigned, in the
  order of \<^verbatim>\<open>CATEGORY_ORDER\<close>: a non-empty category whose name is not in the list is left
  out. (With names that are not unique, the last non-empty category of a name stands for
  it.) When no non-empty category is named in \<^verbatim>\<open>CATEGORY_ORDER\<close>, the resolved list is all
  non-empty categories in manifest order, each with its title assigned.
\<close>

theorem prioritize_keeps_listed_categories:
  "((\<exists>c\<in>set (nonEmptyCategories cso). name c \<in> set CATEGORY_ORDER) \<longrightarrow>
      map name (prioritizeCategories proto cso) =
        filter (\<lambda>k. k \<in> name ` set (nonEmptyCategories cso)) CATEGORY_ORDER
      \<and> set (prioritizeCategories proto cso) \<subseteq> withTitle proto ` set (nonEmptyCategories cso)
      \<and> (distinct (map name (nonEmptyCategories cso)) \<longrightarrow>
           set (prioritizeCategories proto cso) =
             withTitle proto ` {c \<in> set (nonEmptyCategories cso). name c \<in> set CATEGORY_ORDER}))
   \<and> ((\<forall>c\<in>set (nonEmptyCategories cso). name c \<notin> set CATEGORY_ORDER) \<longrightarrow>
        prioritizeCategories proto cso = map (withTitle proto) (nonEmptyCategories cso))"
proof -
  define valid where "valid = nonEmptyCategories cso"
  define listed where "listed = List.map_filter (byName valid) CATEGORY_ORDER"
  have def: "prioritizeCategories proto cso =
             (if listed \<noteq> [] then map (withTitle proto) listed else map (withTitle proto) valid)"
    by (simp add: prioritizeCategories_def Let_def valid_def listed_def)
  have ne: "(listed \<noteq> []) = (\<exists>c\<in>set valid. name c \<in> set CATEGORY_ORDER)"
    unfolding listed_def by (rule prioritized_nonempty)
  have names: "map name (map (withTitle proto) listed) =
               filter (\<lambda>k. k \<in> name ` set valid) CATEGORY_ORDER"
    unfolding listed_def
    by (simp add: comp_def name_withTitle map_filter_byName_names [symmetric])
  have sub: "set (map (withTitle proto) listed) \<subseteq> withTitle proto ` set valid"
    using set_map_filter_byName [of valid CATEGORY_ORDER] unfolding listed_def by auto
  have eq: "set (map (withTitle proto) listed) =
            withTitle proto ` {c \<in> set valid. name c \<in> set CATEGORY_ORDER}"
    if "distinct (map name valid)"
    unfolding listed_def using set_map_filter_byName_distinct [OF that, of CATEGORY_ORDER]
    by simp
  have none: "prioritizeCategories proto cso = map (withTitle proto) valid"
    if "\<forall>c\<in>set valid. name c \<notin> set CATEGORY_ORDER"
    using that ne by (auto simp: def)
  have some: "prioritizeCategories proto cso = map (withTitle proto) listed"
    if "\<exists>c\<in>set valid. name c \<in> set CATEGORY_ORDER"
    using that ne by (simp add: def)
  have A: "(\<exists>c\<in>set valid. name c \<in> set CATEGORY_ORDER) \<longrightarrow>
      map name (prioritizeCategories proto cso) =
        filter (\<lambda>k. k \<in> name ` set valid) CATEGORY_ORDER
      \<and> set (prioritizeCategories proto cso) \<subseteq> withTitle proto ` set valid
      \<and> (distinct (map name valid) \<longrightarrow>
           set (prioritizeCategories proto cso) =
             withTitle proto ` {c \<in> set valid. name c \<in> set CATEGORY_ORDER})"
  proof
    assume "\<exists>c\<in>set valid. name c \<in> set CATEGORY_ORDER"
    from some [OF this] show "map name (prioritizeCategories proto cso) =
        filter (\<lambda>k. k \<in> name ` set valid) CATEGORY_ORDER
      \<and> set (prioritizeCategories proto cso) \<subseteq> withTitle proto ` set valid
      \<and> (distinct (map name valid) \<longrightarrow>
           set (prioritizeCategories proto cso) =
             withTitle proto ` {c \<in> set valid. name c \<in> set CATEGORY_ORDER})"
      using names sub eq by simp
  qed
  have B: "(\<forall>c\<in>set valid. name c \<notin> set CATEGORY_ORDER) \<longrightarrow>
        prioritizeCategories proto cso = map (withTitle proto) valid"
    using none by blast
  from A B show ?thesis
    unfolding valid_def by (rule conjI)
qed

lemma mixed_nonEmpty: "nonEmptyCategories (Some mixedCategories) = mixedCategories"
  by (simp add: nonEmptyCategories_def mixedCategories_def hasImages_def)

lemma mixed_names: "map name mixedCategories = [''food'', ''weddings'', ''portraits'']"
  by (simp add: mixedCategories_def)

theorem prioritize_keeps_listed_categories_witness:
  "map name (nonEmptyCategories (Some mixedCategories)) = [''food'', ''weddings'', ''portraits'']
   \<and> map name (prioritizeCategories [] (Some mixedCategories)) = [''portraits'', ''food'']
   \<and> map name (nonEmptyCategories (Some [streetFood])) = [''street-food'']
   \<and> prioritizeCategories [] (Some [streetFood]) = [withTitle [] streetFood]"
proof -
  have s: "set (map name mixedCategories) = {''food'', ''weddings'', ''portraits''}"
    by (simp add: mixed_names)
  then have i: "name ` set mixedCategories = {''food'', ''weddings'', ''portraits''}"
    by simp
  have e: "\<exists>c\<in>set (nonEmptyCategories (Some mixedCategories)). name c \<in> set CATEGORY_ORDER"
    unfolding mixed_nonEmpty by (simp add: mixedCategories_def CATEGORY_ORDER_def)
  have n: "nonEmptyCategories (Some [streetFood]) = [streetFood]"
    by (simp add: nonEmptyCategories_def streetFood_def hasImages_def)
  have a: "\<forall>c\<in>set (nonEmptyCategories (Some [streetFood])). name c \<notin> set CATEGORY_ORDER"
    unfolding n by (simp add: streetFood_def CATEGORY_ORDER_def)
  have "map name (prioritizeCategories [] (Some mixedCategories)) =
          filter (\<lambda>k. k \<in> name ` set mixedCategories) CATEGORY_ORDER"
    using prioritize_keeps_listed_categories [of "Some mixedCategories" "[]"] e
    by (simp add: mixed_nonEmpty)
  then have 1: "map name (prioritizeCategories [] (Some mixedCategories)) = [''portraits'', ''food'']"
    unfolding i by (simp add: CATEGORY_ORDER_def)
  have 2: "prioritizeCategories [] (Some [streetFood]) = [withTitle [] streetFood]"
    using prioritize_keeps_listed_categories [of "Some [streetFood]" "[]"] a
    by (simp add: n)
  have 3: "map name (nonEmptyCategories (Some [streetFood])) = [''street-food'']"
    unfolding n by (simp add: streetFood_def)
  from 1 2 3 show ?thesis
    by (simp add: mixed_nonEmpty mixed_names)
qed

text \<open>
  Claim C3 as first stated fails: of the three non-empty categories \<^verbatim>\<open>food\<close>, \<^verbatim>\<open>weddings\<close>
  and \<^verbatim>\<open>portraits\<close> the resolved list keeps \<^verbatim>\<open>portraits\<close> and \<^verbatim>\<open>food\<close> only; \<^verbatim>\<open>weddings\<close>,
  which the priority list does not name, is removed.
\<close>

theorem prioritize_drops_unlisted:
  "map hasImages mixedCategories = [True, True, True]
   \<and> map name mixedCategories = [''food'', ''weddings'', ''portraits'']
   \<and> map name (prioritizeCategories [] (Some mixedCategories)) = [''portraits'', ''food'']
   \<and> length (prioritizeCategories [] (Some mixedCategories)) = 2"
  by (simp add: prioritizeCategories_def nonEmptyCategories_def mixedCategories_def hasImages_def
      CATEGORY_ORDER_def List.map_filter_simps byName_def withTitle_def Let_def)

text \<open>
  Claim C2, as amended. Every category of the list \<^verbatim>\<open>prioritizeCategories\<close> returns is a
  non-empty category of the manifest with its title replaced. The title is what the lookup
  by category name in the table of titles yields when it yields a value, whether the
  category has a title of its own or not; the five entries of the table are found for their
  names. Only when the lookup yields nothing is the category's own title used, if it is
  present and not empty; and only when that is missing too, the humanized name.
\<close>

theorem title_lookup_comes_first:
  assumes "r \<in> set (prioritizeCategories proto cso)"
  shows "\<exists>c\<in>set (nonEmptyCategories cso).
           name r = name c \<and> images r = images c
         \<and> (\<forall>t. lookupTitle proto (name c) = Some t \<longrightarrow> title r = Some t)
         \<and> (\<forall>t. map_of CATEGORY_TITLES (name c) = Some t \<longrightarrow> lookupTitle proto (name c) = Some t)
         \<and> (lookupTitle proto (name c) = None \<longrightarrow>
               (\<forall>t. title c = Some t \<and> t \<noteq> [] \<longrightarrow> title r = Some t)
             \<and> (title c = None \<or> title c = Some [] \<longrightarrow> title r = Some (humanize (name c))))"
proof -
  from assms prioritizeCategories_subset [of proto cso]
  obtain c where c: "c \<in> set (nonEmptyCategories cso)" and r: "r = withTitle proto c"
    by auto
  have "name r = name c \<and> images r = images c
         \<and> (\<forall>t. lookupTitle proto (name c) = Some t \<longrightarrow> title r = Some t)
         \<and> (\<forall>t. map_of CATEGORY_TITLES (name c) = Some t \<longrightarrow> lookupTitle proto (name c) = Some t)
         \<and> (lookupTitle proto (name c) = None \<longrightarrow>
               (\<forall>t. title c = Some t \<and> t \<noteq> [] \<longrightarrow> title r = Some t)
             \<and> (title c = None \<or> title c = Some [] \<longrightarrow> title r = Some (humanize (name c))))"
    by (auto simp: r withTitle_def resolveTitle_def titleOrHumanized_def lookupTitle_def)
  from this c show ?thesis by (rule bexI)
qed

theorem title_lookup_comes_first_witness:
  "withTitle [] streetFood \<in> set (prioritizeCategories [] (Some [streetFood]))
   \<and> lookupTitle [] ''street-food'' = None
   \<and> title (withTitle [] streetFood) = Some ''Street Food''"
proof -
  have n: "nonEmptyCategories (Some [streetFood]) = [streetFood]"
    by (simp add: nonEmptyCategories_def streetFood_def hasImages_def)
  have m: "withTitle [] streetFood \<in> set (prioritizeCategories [] (Some [streetFood]))"
    unfolding prioritizeCategories_def n
    by (simp add: CATEGORY_ORDER_def List.map_filter_simps byName_def streetFood_def Let_def)
  have l: "lookupTitle [] ''street-food'' = None"
    by (simp add: lookupTitle_def CATEGORY_TITLES_def)
  have h: "humanize ''street-food'' = ''Street Food''"
    by (simp add: humanize_def is_sep_def is_word_def toUpperCase_def)
  from title_lookup_comes_first [OF m] obtain c where
    cin: "c \<in> set (nonEmptyCategories (Some [streetFood]))"
    and t: "lookupTitle [] (name c) = None \<longrightarrow>
               (\<forall>t. title c = Some t \<and> t \<noteq> [] \<longrightarrow> title (withTitle [] streetFood) = Some t)
             \<and> (title c = None \<or> title c = Some [] \<longrightarrow>
                  title (withTitle [] streetFood) = Some (humanize (name c)))"
    by (elim bexE conjE) (rule that, assumption+)
  from cin have c: "c = streetFood" by (simp add: n)
  have nm: "name streetFood = ''street-food''" "title streetFood = None"
    by (simp_all add: streetFood_def)
  from t l have "title (withTitle [] streetFood) = Some (humanize ''street-food'')"
    unfolding c nm by simp
  then have "title (withTitle [] streetFood) = Some ''Street Food''"
    unfolding h .
  with m l show ?thesis by simp
qed

text \<open>
  Claim C2 as first stated fails: the category \<^verbatim>\<open>landscapes\<close> with the title \<^verbatim>\<open>Nature\<close> of
  its own is given the title \<^verbatim>\<open>Landscape\<close> of the table.
\<close>

theorem explicit_title_is_overridden:
  "title titledLandscapes = Some ''Nature''
   \<and> map title (prioritizeCategories [] (Some [titledLandscapes])) = [Some ''Landscape'']"
  by (simp add: prioritizeCategories_def nonEmptyCategories_def titledLandscapes_def hasImages_def
      CATEGORY_ORDER_def List.map_filter_simps byName_def withTitle_def Let_def resolveTitle_def
      lookupTitle_def CATEGORY_TITLES_def)

subsection \<open>The document and the tab set agree; further facts\<close>

lemma mount_page_elements:
  assumes "elements p r = Some kids"
  shows "elements (snd (mount cs pns r p)) =
           (elements p)(r \<mapsto> kids @ [tabsContainer (map buildTab cs), panelsWrap pns])"
  using assms by (auto simp: mount_def appendTo_def)

text \<open>After \<^verbatim>\<open>renderPortfolio\<close> the two containers appended to the root hold exactly the
  tab buttons and the panels of the tab set, in its state after the initial activation:
  the elements of the record and those of the document are the same.\<close>

lemma renderPortfolio_dom:
  assumes root: "elements p rootId = Some kids"
    and load: "loadManifest p = (Inr m, p1)"
    and ne: "resolveCategories v (objectProto p) m \<noteq> []"
    and r: "renderPortfolio v rootId p = (p', Some ts')"
  shows "elements p' =
           (elements p)(rootId \<mapsto> kids @ [tabsContainer (tabEls ts'), panelsWrap (panelEls ts')])"
proof -
  define cs where "cs = resolveCategories v (objectProto p) m"
  from renderPortfolio_mounts [OF root load refl ne] obtain pns where
    rp: "renderPortfolio v rootId p =
           (snd (snd (activate v (initialIndex cs (hash p)) False (mount cs pns rootId p1))),
            Some (fst (snd (activate v (initialIndex cs (hash p)) False (mount cs pns rootId p1)))))"
    unfolding cs_def by blast
  define st where "st = mount cs pns rootId p1"
  define k where "k = initialIndex cs (hash p)"
  have p': "p' = snd (snd (activate v k False st))" and ts': "ts' = fst (snd (activate v k False st))"
    using r rp by (simp_all add: st_def k_def)
  have p1: "p1 = snd (loadManifest p)" using load by simp
  have r1: "elements p1 rootId = Some kids" and e1: "elements p1 = elements p"
    using root by (simp_all add: p1 loadManifest_fields)
  have m: "mountRoot ts' = rootId" "slot ts' = length kids"
    using mount_elements(2,3) [OF r1, of cs pns]
    by (simp_all add: ts' activate_tabset markActive_mount st_def)
  have s: "elements (snd st) = (elements p)(rootId \<mapsto>
             kids @ [tabsContainer (map buildTab cs), panelsWrap pns])"
    unfolding st_def by (simp add: mount_page_elements [OF r1] e1)
  then have s': "elements (snd st) rootId =
                 Some (kids @ [tabsContainer (map buildTab cs), panelsWrap pns])"
    by simp
  have "elements p' = elements (sync ts' (snd st))"
    unfolding p' ts' by (rule activate_elements)
  also have "\<dots> = (elements (snd st))(rootId \<mapsto>
       kids @ [tabsContainer (tabEls ts'), panelsWrap (panelEls ts')])"
    by (rule sync_mounted [OF s' m])
  finally show ?thesis
    by (simp add: s)
qed

lemma activate_out_of_range:
  assumes "i < 0 \<or> int (length (tabEls (fst st))) \<le> i"
  shows "fst (activate v i h st) = Some TypeError"
  using assms
  by (auto simp: activate_def Let_def elementAt_def length_selectTabs markActive_tabEls)

end
